theory Spec2Isabelle
  imports Complex_Main
begin

section \<open>EV charging station: data model\<close>

text \<open>
  The embedding follows \<^verbatim>\<open>main.cpp\<close>. Conventions:
  \<^item> a C++ \<^verbatim>\<open>float\<close> is idealised as a \<^typ>\<open>real\<close>: comparisons and the order of the
    arithmetic operations are those of the source, rounding and the special values
    (NaN, infinities) are outside the model; a division by a zero \<^verbatim>\<open>batteryCapacity\<close>
    is therefore not what the program does, and no statement below relies on it;
  \<^item> a C++ \<^verbatim>\<open>int\<close> is an \<^typ>\<open>int\<close>: identifiers are only compared, and the one sum
    \<^verbatim>\<open>bookingCount + 1\<close> is at most 20;
  \<^item> an array with its fill count (\<^verbatim>\<open>users/userCount\<close>, \<^verbatim>\<open>vehicles/vehicleCount\<close>,
    \<^verbatim>\<open>bookings/bookingCount\<close>) is the list of its filled prefix, the count is the length;
    \<^verbatim>\<open>docks\<close> and \<^verbatim>\<open>totalOccupiedTime\<close> are lists of \<^verbatim>\<open>MAX_DOCKS\<close> entries;
  \<^item> the process-wide variable \<^verbatim>\<open>currentWeather\<close> is an explicit argument of every
    function that reads it;
  \<^item> every call of \<^verbatim>\<open>notifyUser\<close> is returned as a notification (recipient, message,
    value); the other console output is not modelled;
  \<^item> record fields carry the prefix of their class (\<open>u_\<close>, \<open>ev_\<close>, \<open>d_\<close>, \<open>b_\<close>), since
    several classes share field names; parameters and locals keep the source's names;
  \<^item> \<^verbatim>\<open>bookingQueue\<close> and \<^verbatim>\<open>processQueue\<close> are never used by any caller and are left out.
\<close>

definition MAX_USERS :: nat where "MAX_USERS = 10"
definition MAX_DOCKS :: nat where "MAX_DOCKS = 5"
definition MAX_BOOKINGS :: nat where "MAX_BOOKINGS = 20"

definition SLOW :: int where "SLOW = 7"
definition MEDIUM :: int where "MEDIUM = 22"
definition FAST :: int where "FAST = 50"
definition SOLAR :: int where "SOLAR = 7"

definition PEAK_START :: real where "PEAK_START = 12"
definition PEAK_END :: real where "PEAK_END = 18"

definition CO2_GRID_FACTOR :: real where "CO2_GRID_FACTOR = 0.5"

datatype WeatherCondition = SUNNY | CLOUDY | NIGHT

datatype EnergySource = GridPower | SolarPower

fun getRateAdjustment :: "EnergySource \<Rightarrow> real" where
  "getRateAdjustment GridPower = 1"
| "getRateAdjustment SolarPower = 0.9"

fun getCO2Emission :: "EnergySource \<Rightarrow> real \<Rightarrow> real" where
  "getCO2Emission GridPower energy = energy * CO2_GRID_FACTOR"
| "getCO2Emission SolarPower energy = 0"

fun getAvailablePower :: "WeatherCondition \<Rightarrow> EnergySource \<Rightarrow> real \<Rightarrow> real" where
  "getAvailablePower w GridPower basePower = basePower"
| "getAvailablePower w SolarPower basePower =
     (case w of SUNNY \<Rightarrow> basePower | CLOUDY \<Rightarrow> basePower * 0.5 | NIGHT \<Rightarrow> 0)"

record User =
  u_userID :: int
  u_name :: string
  u_isRegistered :: bool
  u_membershipLevel :: int

record EV =
  ev_vehicleID :: int
  ev_userID :: int
  ev_batterySOC :: real
  ev_batteryCapacity :: real
  ev_supportsV2G :: bool

record ChargingDock =
  d_dockID :: int
  d_powerRating :: int
  d_isOccupied :: bool
  d_currentVehicleID :: int
  d_energySource :: "EnergySource option"

record Booking =
  b_bookingID :: int
  b_userID :: int
  b_vehicleID :: int
  b_dockID :: int
  b_stationID :: int
  b_startTime :: real
  b_duration :: real
  b_isActive :: bool
  b_cost :: real
  b_energyConsumed :: real
  b_chargingType :: int

record ChargingStation =
  docks :: "ChargingDock list"
  users :: "User list"
  vehicles :: "EV list"
  bookings :: "Booking list"
  totalOccupiedTime :: "real list"
  systemStartTime :: real
  stationID :: int

type_synonym Notification = "int \<times> string \<times> real"

subsection \<open>Methods of the small classes\<close>

definition User_registerUser :: "int \<Rightarrow> string \<Rightarrow> int \<Rightarrow> User" where
  "User_registerUser id' userName level =
     \<lparr>u_userID = id', u_name = take 49 userName, u_isRegistered = True,
      u_membershipLevel = (if level \<noteq> 0 \<and> level \<noteq> 1 then 0 else level)\<rparr>"

definition EV_registerVehicle :: "int \<Rightarrow> int \<Rightarrow> real \<Rightarrow> real \<Rightarrow> bool \<Rightarrow> EV" where
  "EV_registerVehicle vID uID soc capacity v2g =
     \<lparr>ev_vehicleID = vID, ev_userID = uID, ev_batterySOC = max 0 (min 100 soc),
      ev_batteryCapacity = max 0 capacity, ev_supportsV2G = v2g\<rparr>"

text \<open>\<^verbatim>\<open>EV::dischargeToGrid\<close>: the energy returned and the vehicle after the call.\<close>

definition EV_dischargeToGrid :: "real \<Rightarrow> EV \<Rightarrow> real \<times> EV" where
  "EV_dischargeToGrid energy v =
     (if \<not> ev_supportsV2G v then (0, v)
      else
        let energyAvailable = (ev_batterySOC v / 100) * ev_batteryCapacity v;
            energyToDischarge = min energy energyAvailable;
            soc = ev_batterySOC v - (energyToDischarge / ev_batteryCapacity v) * 100
        in (energyToDischarge, v\<lparr>ev_batterySOC := (if soc < 0 then 0 else soc)\<rparr>))"

definition ChargingDock_initialize :: "int \<Rightarrow> int \<Rightarrow> EnergySource \<Rightarrow> ChargingDock" where
  "ChargingDock_initialize id' rating source =
     \<lparr>d_dockID = id', d_powerRating = rating, d_isOccupied = False,
      d_currentVehicleID = - 1, d_energySource = Some source\<rparr>"

definition Booking_createBooking ::
  "int \<Rightarrow> int \<Rightarrow> int \<Rightarrow> int \<Rightarrow> int \<Rightarrow> real \<Rightarrow> real \<Rightarrow> int \<Rightarrow> Booking" where
  "Booking_createBooking bID uID vID dID sID time dur type =
     \<lparr>b_bookingID = bID, b_userID = uID, b_vehicleID = vID, b_dockID = dID,
      b_stationID = sID, b_startTime = time, b_duration = dur, b_isActive = True,
      b_cost = 0, b_energyConsumed = 0, b_chargingType = type\<rparr>"

definition Booking_cancelBooking :: "Booking \<Rightarrow> Booking" where
  "Booking_cancelBooking b = b\<lparr>b_isActive := False\<rparr>"

subsection \<open>The station\<close>

text \<open>The constructor \<^verbatim>\<open>ChargingStation(int sID)\<close>.\<close>

definition ChargingStation_init :: "int \<Rightarrow> ChargingStation" where
  "ChargingStation_init sID =
     \<lparr>docks = [ChargingDock_initialize 1 SLOW GridPower,
               ChargingDock_initialize 2 SLOW SolarPower,
               ChargingDock_initialize 3 MEDIUM GridPower,
               ChargingDock_initialize 4 MEDIUM SolarPower,
               ChargingDock_initialize 5 FAST GridPower],
      users = [], vehicles = [], bookings = [],
      totalOccupiedTime = replicate MAX_DOCKS 0,
      systemStartTime = 0, stationID = sID\<rparr>"

text \<open>
  The index of the first element that satisfies a test: the shape of every
  \<^verbatim>\<open>for (...) { if (test) { ...; break; } }\<close> loop of the source that goes on to update the
  element it found.
\<close>

fun firstIndex :: "('a \<Rightarrow> bool) \<Rightarrow> 'a list \<Rightarrow> nat option" where
  "firstIndex P [] = None"
| "firstIndex P (x # xs) = (if P x then Some 0 else map_option Suc (firstIndex P xs))"

text \<open>
  The loop \<^verbatim>\<open>for (j < MAX_DOCKS) if (docks[j].dockID == dockID) { ...; break; }\<close> that
  sets the occupancy of the first dock with the given ID; the source writes it out in
  \<^verbatim>\<open>createBooking\<close>, \<^verbatim>\<open>cancelBooking\<close> and \<^verbatim>\<open>completeBooking\<close>.
\<close>

definition setDockOccupancy :: "int \<Rightarrow> bool \<Rightarrow> int \<Rightarrow> ChargingDock list \<Rightarrow> ChargingDock list" where
  "setDockOccupancy dockID occupied vehicleID ds =
     (case firstIndex (\<lambda>d. d_dockID d = dockID) ds of
        None \<Rightarrow> ds
      | Some j \<Rightarrow> ds[j := (ds ! j)\<lparr>d_isOccupied := occupied, d_currentVehicleID := vehicleID\<rparr>])"

text \<open>
  The test \<^verbatim>\<open>startTime >= PEAK_START && startTime < PEAK_END\<close>, written out three times
  in the source (\<^verbatim>\<open>findAvailableDock\<close>, \<^verbatim>\<open>createBooking\<close>, \<^verbatim>\<open>completeBooking\<close>).
\<close>

definition isPeakHour :: "real \<Rightarrow> bool" where
  "isPeakHour startTime = (startTime \<ge> PEAK_START \<and> startTime < PEAK_END)"

definition registerUser :: "int \<Rightarrow> string \<Rightarrow> int \<Rightarrow> ChargingStation \<Rightarrow> bool \<times> ChargingStation" where
  "registerUser id' name level s =
     (if length (users s) \<ge> MAX_USERS then (False, s)
      else if \<exists>u \<in> set (users s). u_userID u = id' then (False, s)
      else (True, s\<lparr>users := users s @ [User_registerUser id' name level]\<rparr>))"

definition registerVehicle ::
  "int \<Rightarrow> int \<Rightarrow> real \<Rightarrow> real \<Rightarrow> bool \<Rightarrow> ChargingStation \<Rightarrow> bool \<times> ChargingStation" where
  "registerVehicle vID uID soc capacity v2g s =
     (if length (vehicles s) \<ge> MAX_USERS then (False, s)
      else if \<exists>u \<in> set (users s). u_userID u = uID \<and> u_isRegistered u then
        (if \<exists>v \<in> set (vehicles s). ev_vehicleID v = vID then (False, s)
         else (True, s\<lparr>vehicles := vehicles s @ [EV_registerVehicle vID uID soc capacity v2g]\<rparr>))
      else (False, s))"

definition isCriticalBooking :: "ChargingStation \<Rightarrow> int \<Rightarrow> int \<Rightarrow> bool" where
  "isCriticalBooking s uID vID =
     (let isPremium = (\<exists>u \<in> set (users s). u_userID u = uID \<and> u_membershipLevel u = 1);
          soc = (case find (\<lambda>v. ev_vehicleID v = vID) (vehicles s) of
                   None \<Rightarrow> 0 | Some v \<Rightarrow> ev_batterySOC v)
      in isPremium \<or> soc < 20)"

definition isDockAvailable :: "ChargingStation \<Rightarrow> int \<Rightarrow> real \<Rightarrow> real \<Rightarrow> bool" where
  "isDockAvailable s dockID startTime duration =
     (if length (bookings s) > MAX_BOOKINGS then False
      else \<not> (\<exists>b \<in> set (bookings s).
                 b_isActive b \<and> b_dockID b = dockID \<and>
                 (let bStart = b_startTime b;
                      bEnd = bStart + b_duration b;
                      newEnd = startTime + duration
                  in startTime < bEnd \<and> newEnd > bStart)))"

text \<open>The local vector \<^verbatim>\<open>suitableDocks\<close> that the first loop of \<^verbatim>\<open>findAvailableDock\<close> fills.\<close>

definition suitableDocks ::
  "WeatherCondition \<Rightarrow> ChargingStation \<Rightarrow> int \<Rightarrow> real \<Rightarrow> real \<Rightarrow> bool \<Rightarrow> int list" where
  "suitableDocks w s powerRating startTime duration isSolarCharging =
     map d_dockID
       (filter
          (\<lambda>d. case d_energySource d of
                  None \<Rightarrow> False
                | Some src \<Rightarrow>
                    \<not> d_isOccupied d \<and>
                    getAvailablePower w src (real_of_int (d_powerRating d)) \<ge> real_of_int powerRating \<and>
                    (\<not> isSolarCharging \<or> src = SolarPower) \<and>
                    isDockAvailable s (d_dockID d) startTime duration)
          (docks s))"

definition findAvailableDock ::
  "WeatherCondition \<Rightarrow> ChargingStation \<Rightarrow> int \<Rightarrow> real \<Rightarrow> real \<Rightarrow> bool \<Rightarrow> int" where
  "findAvailableDock w s powerRating startTime duration isSolarCharging =
     (let suitable = suitableDocks w s powerRating startTime duration isSolarCharging
      in case suitable of
           [] \<Rightarrow> - 1
         | first # _ \<Rightarrow>
             if isPeakHour startTime \<and> \<not> isSolarCharging then
               (case find (\<lambda>dockID. \<exists>d \<in> set (docks s).
                                      d_dockID d = dockID \<and> d_energySource d = Some SolarPower)
                          suitable of
                  Some dockID \<Rightarrow> dockID
                | None \<Rightarrow> first)
             else first)"

text \<open>
  \<^verbatim>\<open>createBooking\<close> returns its boolean, the notifications it sent and the station after
  the call. The assignment to \<^verbatim>\<open>systemStartTime\<close> comes after the validation and before
  the search for a dock, as in the source.
\<close>

definition createBooking ::
  "WeatherCondition \<Rightarrow> int \<Rightarrow> int \<Rightarrow> real \<Rightarrow> real \<Rightarrow> int \<Rightarrow> int \<Rightarrow> ChargingStation
     \<Rightarrow> bool \<times> Notification list \<times> ChargingStation" where
  "createBooking w uID vID startTime duration powerRating chargingType s =
     (if length (bookings s) \<ge> MAX_BOOKINGS then (False, [], s)
      else if startTime < 0 \<or> startTime \<ge> 24 \<or> duration \<le> 0 then (False, [], s)
      else
        let userExists = (\<exists>u \<in> set (users s). u_userID u = uID \<and> u_isRegistered u);
            vehicleExists = (\<exists>v \<in> set (vehicles s). ev_vehicleID v = vID \<and> ev_userID v = uID)
        in if \<not> userExists \<or> \<not> vehicleExists then (False, [], s)
           else
             let s1 = (if length (bookings s) = 0 then s\<lparr>systemStartTime := startTime\<rparr> else s);
                 deferred = (isPeakHour startTime \<and> \<not> isCriticalBooking s1 uID vID);
                 adjustedStartTime = (if deferred then PEAK_END else startTime);
                 deferral = (if deferred
                             then [(uID, ''Your booking has been deferred due to peak hours. New start time:'',
                                    adjustedStartTime)]
                             else []);
                 isSolarCharging = (chargingType = 4);
                 dockID = findAvailableDock w s1 powerRating adjustedStartTime duration isSolarCharging
             in if dockID = - 1 then (False, deferral, s1)
                else
                  (True,
                   deferral @ [(uID, ''Upcoming charging session scheduled at:'', adjustedStartTime)],
                   s1\<lparr>bookings := bookings s1 @
                         [Booking_createBooking (int (length (bookings s1)) + 1) uID vID dockID
                            (stationID s1) adjustedStartTime duration chargingType],
                      docks := setDockOccupancy dockID True vID (docks s1)\<rparr>))"

definition cancelBooking :: "int \<Rightarrow> ChargingStation \<Rightarrow> Notification list \<times> ChargingStation" where
  "cancelBooking bookingID s =
     (case firstIndex (\<lambda>b. b_bookingID b = bookingID \<and> b_isActive b) (bookings s) of
        None \<Rightarrow> ([], s)
      | Some i \<Rightarrow>
          let b = bookings s ! i;
              timeToStart = b_startTime b - systemStartTime s;
              penalty = (if timeToStart < 1 then 5 else if timeToStart < 4 then 2 else 0)
          in ([(b_userID b, ''Booking cancelled. Penalty charged: $'', penalty)],
              s\<lparr>bookings := (bookings s)[i := Booking_cancelBooking b],
                docks := setDockOccupancy (b_dockID b) False (- 1) (docks s)\<rparr>))"

text \<open>
  \<^verbatim>\<open>completeBooking\<close>. The booking is deactivated and its dock released before the
  check of the dock index and of the energy source, so the early \<^verbatim>\<open>return\<close> keeps both
  changes. The rate is built by the successive \<^verbatim>\<open>*=\<close> of the source.
\<close>

definition completeBooking ::
  "WeatherCondition \<Rightarrow> int \<Rightarrow> ChargingStation \<Rightarrow> Notification list \<times> ChargingStation" where
  "completeBooking w bookingID s =
     (case firstIndex (\<lambda>b. b_bookingID b = bookingID \<and> b_isActive b) (bookings s) of
        None \<Rightarrow> ([], s)
      | Some i \<Rightarrow>
          let b = Booking_cancelBooking (bookings s ! i);
              dockIndex = firstIndex (\<lambda>d. d_dockID d = b_dockID b) (docks s);
              s1 = s\<lparr>bookings := (bookings s)[i := b],
                     docks := setDockOccupancy (b_dockID b) False (- 1) (docks s)\<rparr>
          in case dockIndex of
               None \<Rightarrow> ([], s1)
             | Some j \<Rightarrow>
                 (case d_energySource (docks s ! j) of
                    None \<Rightarrow> ([], s1)
                  | Some src \<Rightarrow>
                      let energy = getAvailablePower w src (real_of_int (d_powerRating (docks s ! j)))
                                     * b_duration b;
                          rate0 = (if b_chargingType b = 1 then 0.2
                                   else if b_chargingType b = 2 then 0.3
                                   else if b_chargingType b = 3 then 0.4
                                   else if b_chargingType b = 4 then 0.15
                                   else 0);
                          rate1 = (if b_chargingType b = 4 then rate0 * 0.85 else rate0);
                          rate2 = (if isPeakHour (b_startTime b) then rate1 * 1.2 else rate1);
                          ratePerKWh = rate2 * getRateAdjustment src;
                          cost0 = energy * ratePerKWh;
                          cost = (if \<exists>u \<in> set (users s). u_userID u = b_userID b \<and> u_membershipLevel u = 1
                                  then cost0 * 0.85 else cost0)
                      in ([(b_userID b, ''Charging session completed. Energy consumed:'', energy),
                           (b_userID b, ''Total cost for the session: $'', cost)],
                          s1\<lparr>bookings := (bookings s1)[i := b\<lparr>b_energyConsumed := energy, b_cost := cost\<rparr>],
                             totalOccupiedTime := (totalOccupiedTime s1)
                               [j := totalOccupiedTime s1 ! j + b_duration b],
                             vehicles := (case firstIndex (\<lambda>v. ev_vehicleID v = b_vehicleID b) (vehicles s1) of
                                            None \<Rightarrow> vehicles s1
                                          | Some k \<Rightarrow>
                                              let v = vehicles s1 ! k;
                                                  soc = ev_batterySOC v + (energy / ev_batteryCapacity v) * 100
                                              in (vehicles s1)[k := v\<lparr>ev_batterySOC :=
                                                    (if soc > 100 then 100 else soc)\<rparr>])\<rparr>)))"

subsection \<open>The menu of \<^verbatim>\<open>main\<close>\<close>

text \<open>
  Case 9 of the menu: the first vehicle with the given ID is discharged; the result is
  the energy printed, or \<open>None\<close> for \<^verbatim>\<open>Vehicle ID not found\<close>.
\<close>

definition dischargeToGrid :: "int \<Rightarrow> real \<Rightarrow> ChargingStation \<Rightarrow> real option \<times> ChargingStation" where
  "dischargeToGrid vehicleID dischargeEnergy s =
     (case firstIndex (\<lambda>v. ev_vehicleID v = vehicleID) (vehicles s) of
        None \<Rightarrow> (None, s)
      | Some i \<Rightarrow>
          let (discharged, v) = EV_dischargeToGrid dischargeEnergy (vehicles s ! i)
          in (Some discharged, s\<lparr>vehicles := (vehicles s)[i := v]\<rparr>))"

text \<open>Case 11 of the menu: the new value of \<^verbatim>\<open>currentWeather\<close>.\<close>

definition setWeather :: "int \<Rightarrow> WeatherCondition \<Rightarrow> WeatherCondition" where
  "setWeather weather currentWeather =
     (if weather = 0 then SUNNY
      else if weather = 1 then CLOUDY
      else if weather = 2 then NIGHT
      else currentWeather)"

text \<open>
  Case 3 of the menu: the power rating is derived from the charging-type code, and
  \<^verbatim>\<open>createBooking\<close> is not called for a code other than 1 to 4.
\<close>

definition main_case3 ::
  "WeatherCondition \<Rightarrow> int \<Rightarrow> int \<Rightarrow> real \<Rightarrow> real \<Rightarrow> int \<Rightarrow> ChargingStation
     \<Rightarrow> bool \<times> Notification list \<times> ChargingStation" where
  "main_case3 w userID vehicleID startTime duration chargingType s =
     (if chargingType = 1 then createBooking w userID vehicleID startTime duration SLOW chargingType s
      else if chargingType = 2 then createBooking w userID vehicleID startTime duration MEDIUM chargingType s
      else if chargingType = 3 then createBooking w userID vehicleID startTime duration FAST chargingType s
      else if chargingType = 4 then createBooking w userID vehicleID startTime duration SOLAR chargingType s
      else (False, [], s))"

text \<open>
  One turn of the menu loop on one station of the network: the choices that change the
  weather or the station; the display choices (5, 6, 7, 10) and an invalid choice change
  neither.
\<close>

datatype Choice =
    RegisterUser int string int
  | RegisterVehicle int int real real bool
  | CreateBooking int int real real int
  | CompleteBooking int
  | CancelBooking int
  | DischargeToGrid int real
  | ChangeWeather int
  | Display

fun main_switch :: "Choice \<Rightarrow> WeatherCondition \<times> ChargingStation \<Rightarrow> WeatherCondition \<times> ChargingStation" where
  "main_switch (RegisterUser userID name membershipLevel) (w, s) =
     (w, snd (registerUser userID name membershipLevel s))"
| "main_switch (RegisterVehicle vehicleID userID soc capacity v2g) (w, s) =
     (w, snd (registerVehicle vehicleID userID soc capacity v2g s))"
| "main_switch (CreateBooking userID vehicleID startTime duration chargingType) (w, s) =
     (w, snd (snd (main_case3 w userID vehicleID startTime duration chargingType s)))"
| "main_switch (CompleteBooking bookingID) (w, s) = (w, snd (completeBooking w bookingID s))"
| "main_switch (CancelBooking bookingID) (w, s) = (w, snd (cancelBooking bookingID s))"
| "main_switch (DischargeToGrid vehicleID dischargeEnergy) (w, s) =
     (w, snd (dischargeToGrid vehicleID dischargeEnergy s))"
| "main_switch (ChangeWeather weather) (w, s) = (setWeather weather w, s)"
| "main_switch Display (w, s) = (w, s)"

text \<open>The menu loop on a list of choices.\<close>

fun main_loop :: "Choice list \<Rightarrow> WeatherCondition \<times> ChargingStation \<Rightarrow> WeatherCondition \<times> ChargingStation" where
  "main_loop [] c = c"
| "main_loop (choice # choices) c = main_loop choices (main_switch choice c)"

section \<open>Properties of the station\<close>

text \<open>
  The conflict test of two bookings, following the specification: the half-open
  intervals \<open>[s1, s1 + d1)\<close> and \<open>[s2, s2 + d2)\<close> conflict iff \<open>s1 < s2 + d2\<close> and
  \<open>s2 < s1 + d1\<close>; and the invariant that the Active bookings of one dock are pairwise
  free of conflict.
\<close>

definition overlap :: "Booking \<Rightarrow> Booking \<Rightarrow> bool" where
  "overlap b c =
     (b_startTime b < b_startTime c + b_duration c \<and> b_startTime c < b_startTime b + b_duration b)"

definition no_overlap :: "ChargingStation \<Rightarrow> bool" where
  "no_overlap s =
     (\<forall>i < length (bookings s). \<forall>j < length (bookings s).
        i \<noteq> j \<and> b_isActive (bookings s ! i) \<and> b_isActive (bookings s ! j) \<and>
        b_dockID (bookings s ! i) = b_dockID (bookings s ! j)
        \<longrightarrow> \<not> overlap (bookings s ! i) (bookings s ! j))"


subsection \<open>Example stations\<close>

text \<open>
  A station with a Regular user 1 (vehicle 1, V2G) and a Premium user 2 (vehicle 2), both
  vehicles at 50 percent of 40 kWh, and the same station after user 1 booked one hour of
  slow charging at 8.0 (booking 1, on dock 1).
\<close>

definition ex_users :: "User list" where
  "ex_users =
     [\<lparr>u_userID = 1, u_name = ''Ali'', u_isRegistered = True, u_membershipLevel = 0\<rparr>,
      \<lparr>u_userID = 2, u_name = ''Sara'', u_isRegistered = True, u_membershipLevel = 1\<rparr>]"

definition ex_vehicles :: "EV list" where
  "ex_vehicles =
     [\<lparr>ev_vehicleID = 1, ev_userID = 1, ev_batterySOC = 50, ev_batteryCapacity = 40, ev_supportsV2G = True\<rparr>,
      \<lparr>ev_vehicleID = 2, ev_userID = 2, ev_batterySOC = 50, ev_batteryCapacity = 40, ev_supportsV2G = False\<rparr>]"

definition station0 :: ChargingStation where
  "station0 = (ChargingStation_init 1)\<lparr>users := ex_users, vehicles := ex_vehicles\<rparr>"

definition station1 :: ChargingStation where
  "station1 = snd (snd (createBooking SUNNY 1 1 8 1 7 1 station0))"

text \<open>
  The first station after user 1 asked the menu for two hours of fast charging at 8.0, and
  after the Premium user 2 asked for two hours of solar charging at 13.0.
\<close>

definition stationF :: ChargingStation where
  "stationF = snd (snd (main_case3 SUNNY 1 1 8 2 3 station0))"

definition stationS :: ChargingStation where
  "stationS = snd (snd (main_case3 SUNNY 2 2 13 2 4 station0))"

subsection \<open>The booking IDs of a ledger\<close>

text \<open>The booking at index \<open>i\<close> of the ledger has the ID \<open>i + 1\<close>, as \<^verbatim>\<open>createBooking\<close> assigns it.\<close>

definition sequentialIDs :: "ChargingStation \<Rightarrow> bool" where
  "sequentialIDs s = (\<forall>i < length (bookings s). b_bookingID (bookings s ! i) = int i + 1)"

subsection \<open>The utilisation figure of \<^verbatim>\<open>generateReport\<close>\<close>

text \<open>
  The first lines of \<^verbatim>\<open>generateReport\<close>: the time the station has been in use, measured
  from \<^verbatim>\<open>systemStartTime\<close>, and the utilisation printed from it.
\<close>

definition generateReport_totalSystemTime :: "ChargingStation \<Rightarrow> real" where
  "generateReport_totalSystemTime s =
     (let latestEndTime =
            foldl (\<lambda>latest b. let endTime = b_startTime b + b_duration b
                              in if endTime > latest then endTime else latest)
                  (systemStartTime s) (bookings s)
      in if length (bookings s) > 0 then latestEndTime - systemStartTime s else 0)"

definition generateReport_utilization :: "ChargingStation \<Rightarrow> real" where
  "generateReport_utilization s =
     (let totalSystemTime = generateReport_totalSystemTime s;
          totalOccupied = foldl (+) 0 (totalOccupiedTime s)
      in if totalSystemTime > 0
         then (totalOccupied / (totalSystemTime * real MAX_DOCKS)) * 100
         else 0)"

subsection \<open>More example stations\<close>

text \<open>
  At night, user 1 asks the first station for solar charging at 2.0 and is refused for
  lack of a dock (\<open>stationR\<close>); the same user then asks for slow charging at 8.0 and is
  accepted (\<open>stationA\<close>).
\<close>

definition stationR :: ChargingStation where
  "stationR = snd (snd (main_case3 NIGHT 1 1 2 1 4 station0))"

definition stationA :: ChargingStation where
  "stationA = snd (snd (main_case3 NIGHT 1 1 8 1 1 stationR))"

subsection \<open>One step of the ledger\<close>

text \<open>
  What one turn of the menu can do to the ledger: nothing, append a booking with the
  next ID, or deactivate one Active booking, keeping its ID.
\<close>

definition ledger_step :: "Booking list \<Rightarrow> Booking list \<Rightarrow> bool" where
  "ledger_step bs bs' \<longleftrightarrow>
     bs' = bs \<or>
     (\<exists>b. bs' = bs @ [b] \<and> b_bookingID b = int (length bs) + 1) \<or>
     (\<exists>i b. i < length bs \<and> b_isActive (bs ! i) \<and> bs' = bs[i := b] \<and>
            b_bookingID b = b_bookingID (bs ! i) \<and> \<not> b_isActive b)"


subsection \<open>The docks of the constructor and the placement of the bookings\<close>

text \<open>
  The IDs, ratings and sources that the constructor gives the five docks, which no
  operation changes; and the placement of the bookings that the menu creates: on an
  existing dock, a Fast booking (type 3, 50 kW) on dock 5, a Solar booking (type 4) on
  dock 2 or 4.
\<close>

definition dock_layout :: "ChargingStation \<Rightarrow> bool" where
  "dock_layout s =
     (map (\<lambda>d. (d_dockID d, d_powerRating d, d_energySource d)) (docks s) =
        [(1, 7, Some GridPower), (2, 7, Some SolarPower), (3, 22, Some GridPower),
         (4, 22, Some SolarPower), (5, 50, Some GridPower)])"

definition bookings_placed :: "ChargingStation \<Rightarrow> bool" where
  "bookings_placed s =
     (\<forall>b \<in> set (bookings s).
        b_dockID b \<in> {1, 2, 3, 4, 5} \<and>
        (b_chargingType b = 3 \<longrightarrow> b_dockID b = 5) \<and>
        (b_chargingType b = 4 \<longrightarrow> b_dockID b = 2 \<or> b_dockID b = 4))"

section \<open>Auxiliary facts\<close>

subsection \<open>Searches, and the overlap invariant on the ledger\<close>

lemma registerUser_bookings [simp]: "bookings (snd (registerUser i n l s)) = bookings s"
  by (simp add: registerUser_def)

lemma registerVehicle_bookings [simp]: "bookings (snd (registerVehicle v u soc c g s)) = bookings s"
  by (simp add: registerVehicle_def)

lemma firstIndex_Some:
  "firstIndex P xs = Some i \<Longrightarrow> i < length xs \<and> P (xs ! i) \<and> (\<forall>j<i. \<not> P (xs ! j))"
proof (induction xs arbitrary: i)
  case Nil
  then show ?case by simp
next
  case (Cons x xs)
  show ?case
  proof (cases "P x")
    case True
    with Cons.prems show ?thesis by simp
  next
    case False
    with Cons.prems obtain k where k: "firstIndex P xs = Some k" "i = Suc k"
      by auto
    from Cons.IH [OF k(1)] False k(2) show ?thesis
      by (auto simp: nth_Cons split: nat.splits)
  qed
qed

lemma firstIndex_None: "firstIndex P xs = None \<longleftrightarrow> (\<forall>x \<in> set xs. \<not> P x)"
  by (induction xs) auto

lemma firstIndex_ex: "\<exists>x \<in> set xs. P x \<Longrightarrow> \<exists>i. firstIndex P xs = Some i"
  using firstIndex_None [of P xs] by (cases "firstIndex P xs") auto

lemma no_overlap_deactivate:
  assumes inv: "no_overlap s" and upd: "bookings s' = (bookings s)[i := b]" and b: "\<not> b_isActive b"
  shows "no_overlap s'"
  unfolding no_overlap_def
proof (intro allI impI)
  fix k j
  assume k: "k < length (bookings s')" and j: "j < length (bookings s')"
    and h: "k \<noteq> j \<and> b_isActive (bookings s' ! k) \<and> b_isActive (bookings s' ! j) \<and>
            b_dockID (bookings s' ! k) = b_dockID (bookings s' ! j)"
  from k j upd have len: "k < length (bookings s)" "j < length (bookings s)" by simp_all
  from h upd b len have ki: "k \<noteq> i" and ji: "j \<noteq> i"
    by (auto simp: nth_list_update split: if_splits)
  from ki ji upd have same: "bookings s' ! k = bookings s ! k" "bookings s' ! j = bookings s ! j"
    by simp_all
  from inv len h show "\<not> overlap (bookings s' ! k) (bookings s' ! j)"
    unfolding no_overlap_def same by blast
qed

lemma no_overlap_append:
  assumes inv: "no_overlap s" and upd: "bookings s' = bookings s @ [b]"
    and free: "\<forall>c \<in> set (bookings s). b_isActive c \<and> b_dockID c = b_dockID b \<longrightarrow> \<not> overlap b c"
  shows "no_overlap s'"
  unfolding no_overlap_def
proof (intro allI impI)
  fix k j
  assume k: "k < length (bookings s')" and j: "j < length (bookings s')"
    and h: "k \<noteq> j \<and> b_isActive (bookings s' ! k) \<and> b_isActive (bookings s' ! j) \<and>
            b_dockID (bookings s' ! k) = b_dockID (bookings s' ! j)"
  have sym: "overlap x y = overlap y x" for x y
    by (auto simp: overlap_def)
  consider (old) "k < length (bookings s)" "j < length (bookings s)"
    | (newk) "k = length (bookings s)" "j < length (bookings s)"
    | (newj) "j = length (bookings s)" "k < length (bookings s)"
    using k j h upd by (auto simp: less_Suc_eq)
  then show "\<not> overlap (bookings s' ! k) (bookings s' ! j)"
  proof cases
    case old
    then have "bookings s' ! k = bookings s ! k" "bookings s' ! j = bookings s ! j"
      using upd by (simp_all add: nth_append)
    with inv old h show ?thesis unfolding no_overlap_def by metis
  next
    case newk
    then have e: "bookings s' ! k = b" "bookings s' ! j = bookings s ! j"
      using upd by (simp_all add: nth_append)
    from newk have "bookings s ! j \<in> set (bookings s)" by simp
    with free h e show ?thesis by auto
  next
    case newj
    then have e: "bookings s' ! j = b" "bookings s' ! k = bookings s ! k"
      using upd by (simp_all add: nth_append)
    from newj have "bookings s ! k \<in> set (bookings s)" by simp
    with free h e sym show ?thesis by auto
  qed
qed

lemma isDockAvailable_free:
  assumes "isDockAvailable s dockID st du"
  shows "\<forall>c \<in> set (bookings s). b_isActive c \<and> b_dockID c = dockID \<longrightarrow>
           \<not> (st < b_startTime c + b_duration c \<and> b_startTime c < st + du)"
  using assms by (auto simp: isDockAvailable_def Let_def split: if_splits)

lemma findAvailableDock_suitable:
  "findAvailableDock w s p st du sol \<noteq> - 1 \<Longrightarrow>
   findAvailableDock w s p st du sol \<in> set (suitableDocks w s p st du sol)"
  by (auto simp: findAvailableDock_def Let_def split: list.splits option.splits if_splits dest: find_Some_iff[THEN iffD1])

lemma suitableDocks_available:
  "dockID \<in> set (suitableDocks w s p st du sol) \<Longrightarrow> isDockAvailable s dockID st du"
  by (auto simp: suitableDocks_def split: option.splits)

lemma isCriticalBooking_systemStartTime [simp]:
  "isCriticalBooking (s\<lparr>systemStartTime := t\<rparr>) uID vID = isCriticalBooking s uID vID"
  by (simp add: isCriticalBooking_def)

lemma isDockAvailable_systemStartTime [simp]:
  "isDockAvailable (s\<lparr>systemStartTime := t\<rparr>) = isDockAvailable s"
  by (intro ext) (simp add: isDockAvailable_def)

lemma suitableDocks_systemStartTime [simp]:
  "suitableDocks w (s\<lparr>systemStartTime := t\<rparr>) = suitableDocks w s"
proof -
  have d: "docks (s\<lparr>systemStartTime := t\<rparr>) = docks s" by simp
  show ?thesis
    unfolding suitableDocks_def isDockAvailable_systemStartTime d ..
qed

lemma findAvailableDock_systemStartTime [simp]:
  "findAvailableDock w (s\<lparr>systemStartTime := t\<rparr>) = findAvailableDock w s"
proof -
  have d: "docks (s\<lparr>systemStartTime := t\<rparr>) = docks s" by simp
  show ?thesis
    unfolding findAvailableDock_def suitableDocks_systemStartTime d ..
qed

subsection \<open>The branches of \<^verbatim>\<open>createBooking\<close>\<close>

text \<open>
  \<^verbatim>\<open>createBooking\<close> with the intermediate station written out: the rejection by the
  checks, the rejection for lack of a dock, and the accepted request.
\<close>

lemma createBooking_eq:
  "createBooking w uID vID startTime duration powerRating chargingType s =
     (let adj = (if isPeakHour startTime \<and> \<not> isCriticalBooking s uID vID then PEAK_END else startTime);
          deferral = (if isPeakHour startTime \<and> \<not> isCriticalBooking s uID vID
                      then [(uID, ''Your booking has been deferred due to peak hours. New start time:'', PEAK_END)]
                      else []);
          dockID = findAvailableDock w s powerRating adj duration (chargingType = 4);
          anchor = (if bookings s = [] then startTime else systemStartTime s)
      in if length (bookings s) \<ge> MAX_BOOKINGS \<or> startTime < 0 \<or> startTime \<ge> 24 \<or> duration \<le> 0 \<or>
            \<not> (\<exists>u \<in> set (users s). u_userID u = uID \<and> u_isRegistered u) \<or>
            \<not> (\<exists>v \<in> set (vehicles s). ev_vehicleID v = vID \<and> ev_userID v = uID)
         then (False, [], s)
         else if dockID = - 1 then (False, deferral, s\<lparr>systemStartTime := anchor\<rparr>)
         else (True, deferral @ [(uID, ''Upcoming charging session scheduled at:'', adj)],
               s\<lparr>systemStartTime := anchor,
                 bookings := bookings s @
                   [Booking_createBooking (int (length (bookings s)) + 1) uID vID dockID (stationID s)
                      adj duration chargingType],
                 docks := setDockOccupancy dockID True vID (docks s)\<rparr>))"
proof (cases "bookings s = []")
  case True
  then have l: "length (bookings s) = 0" by simp
  show ?thesis
    unfolding createBooking_def Let_def l if_True True
    by (simp add: True)
next
  case False
  then have l: "(length (bookings s) = 0) = False" by simp
  have u: "s\<lparr>systemStartTime := systemStartTime s\<rparr> = s" by simp
  show ?thesis
    unfolding createBooking_def Let_def l if_False
    by (simp add: False u)
qed

lemma createBooking_accepted:
  assumes acc: "createBooking w uID vID startTime duration powerRating chargingType s = (True, msgs, s')"
  defines "adj \<equiv> (if isPeakHour startTime \<and> \<not> isCriticalBooking s uID vID then PEAK_END else startTime)"
  defines "dockID \<equiv> findAvailableDock w s powerRating adj duration (chargingType = 4)"
  shows "length (bookings s) < MAX_BOOKINGS" and "0 \<le> startTime" and "startTime < 24" and "0 < duration"
    and "\<exists>u \<in> set (users s). u_userID u = uID \<and> u_isRegistered u"
    and "\<exists>v \<in> set (vehicles s). ev_vehicleID v = vID \<and> ev_userID v = uID"
    and "dockID \<noteq> - 1"
    and "s' = s\<lparr>systemStartTime := (if bookings s = [] then startTime else systemStartTime s),
                 bookings := bookings s @
                   [Booking_createBooking (int (length (bookings s)) + 1) uID vID dockID (stationID s)
                      adj duration chargingType],
                 docks := setDockOccupancy dockID True vID (docks s)\<rparr>"
    and "msgs = (if isPeakHour startTime \<and> \<not> isCriticalBooking s uID vID
                  then [(uID, ''Your booking has been deferred due to peak hours. New start time:'', PEAK_END)]
                  else []) @ [(uID, ''Upcoming charging session scheduled at:'', adj)]"
proof -
  define invalid where "invalid \<longleftrightarrow>
     (length (bookings s) \<ge> MAX_BOOKINGS \<or> startTime < 0 \<or> startTime \<ge> 24 \<or> duration \<le> 0 \<or>
      \<not> (\<exists>u \<in> set (users s). u_userID u = uID \<and> u_isRegistered u) \<or>
      \<not> (\<exists>v \<in> set (vehicles s). ev_vehicleID v = vID \<and> ev_userID v = uID))"
  define deferral where "deferral = (if isPeakHour startTime \<and> \<not> isCriticalBooking s uID vID
                      then [(uID, ''Your booking has been deferred due to peak hours. New start time:'', PEAK_END)]
                      else [])"
  define t where "t = s\<lparr>systemStartTime := (if bookings s = [] then startTime else systemStartTime s),
                 bookings := bookings s @
                   [Booking_createBooking (int (length (bookings s)) + 1) uID vID dockID (stationID s)
                      adj duration chargingType],
                 docks := setDockOccupancy dockID True vID (docks s)\<rparr>"
  have e: "createBooking w uID vID startTime duration powerRating chargingType s =
     (if invalid then (False, [], s)
      else if dockID = - 1
           then (False, deferral, s\<lparr>systemStartTime := (if bookings s = [] then startTime else systemStartTime s)\<rparr>)
           else (True, deferral @ [(uID, ''Upcoming charging session scheduled at:'', adj)], t))"
    unfolding createBooking_eq Let_def invalid_def deferral_def t_def dockID_def adj_def ..
  have valid: "\<not> invalid"
  proof
    assume invalid
    with e acc show False by simp
  qed
  then show "length (bookings s) < MAX_BOOKINGS" "0 \<le> startTime" "startTime < 24" "0 < duration"
    "\<exists>u \<in> set (users s). u_userID u = uID \<and> u_isRegistered u"
    "\<exists>v \<in> set (vehicles s). ev_vehicleID v = vID \<and> ev_userID v = uID"
    unfolding invalid_def by auto
  show d: "dockID \<noteq> - 1"
  proof
    assume "dockID = - 1"
    with e acc valid show False by simp
  qed
  from e acc valid d have "(True, msgs, s') = (True, deferral @ [(uID, ''Upcoming charging session scheduled at:'', adj)], t)"
    by simp
  then have m: "msgs = deferral @ [(uID, ''Upcoming charging session scheduled at:'', adj)]" and s': "s' = t"
    by simp_all
  from s' show "s' = s\<lparr>systemStartTime := (if bookings s = [] then startTime else systemStartTime s),
                 bookings := bookings s @
                   [Booking_createBooking (int (length (bookings s)) + 1) uID vID dockID (stationID s)
                      adj duration chargingType],
                 docks := setDockOccupancy dockID True vID (docks s)\<rparr>"
    unfolding t_def .
  from m show "msgs = (if isPeakHour startTime \<and> \<not> isCriticalBooking s uID vID
                  then [(uID, ''Your booking has been deferred due to peak hours. New start time:'', PEAK_END)]
                  else []) @ [(uID, ''Upcoming charging session scheduled at:'', adj)]"
    unfolding deferral_def .
qed

lemma createBooking_rejected:
  assumes rej: "createBooking w uID vID startTime duration powerRating chargingType s = (False, msgs, s')"
  shows "s' = s \<or> (bookings s = [] \<and> s' = s\<lparr>systemStartTime := startTime\<rparr>)"
proof -
  define A where "A = createBooking w uID vID startTime duration powerRating chargingType s"
  have "snd (snd A) = s \<or> snd (snd A) = s\<lparr>systemStartTime := (if bookings s = [] then startTime else systemStartTime s)\<rparr>
          \<or> fst A"
    unfolding A_def createBooking_eq Let_def by simp
  with rej have "s' = s \<or> s' = s\<lparr>systemStartTime := (if bookings s = [] then startTime else systemStartTime s)\<rparr>"
    by (simp add: A_def)
  then show ?thesis
    by (cases "bookings s = []") auto
qed

lemma createBooking_no_overlap:
  assumes inv: "no_overlap s"
  shows "no_overlap (snd (snd (createBooking w uID vID startTime duration powerRating chargingType s)))"
proof -
  obtain ok msgs s' where r: "createBooking w uID vID startTime duration powerRating chargingType s = (ok, msgs, s')"
    by (metis prod_cases3)
  show ?thesis
  proof (cases ok)
    case False
    with r have "createBooking w uID vID startTime duration powerRating chargingType s = (False, msgs, s')"
      by simp
    from createBooking_rejected [OF this] have "bookings s' = bookings s" by auto
    with inv have "no_overlap s'" by (simp add: no_overlap_def)
    with r show ?thesis by simp
  next
    case True
    define adj where "adj = (if isPeakHour startTime \<and> \<not> isCriticalBooking s uID vID then PEAK_END else startTime)"
    define dockID where "dockID = findAvailableDock w s powerRating adj duration (chargingType = 4)"
    define b where "b = Booking_createBooking (int (length (bookings s)) + 1) uID vID dockID (stationID s) adj duration chargingType"
    from r True have acc: "createBooking w uID vID startTime duration powerRating chargingType s = (True, msgs, s')"
      by simp
    have d: "dockID \<noteq> - 1"
      using createBooking_accepted(7) [OF acc] by (simp add: dockID_def adj_def)
    have bs: "bookings s' = bookings s @ [b]"
      unfolding createBooking_accepted(8) [OF acc] b_def dockID_def adj_def by simp
    from d have "dockID \<in> set (suitableDocks w s powerRating adj duration (chargingType = 4))"
      unfolding dockID_def by (rule findAvailableDock_suitable)
    then have "isDockAvailable s dockID adj duration"
      by (rule suitableDocks_available)
    from isDockAvailable_free [OF this]
    have "\<forall>c \<in> set (bookings s). b_isActive c \<and> b_dockID c = b_dockID b \<longrightarrow> \<not> overlap b c"
      by (simp add: overlap_def b_def Booking_createBooking_def)
    from no_overlap_append [OF inv bs this] r show ?thesis by simp
  qed
qed

lemma cancelBooking_no_overlap:
  assumes inv: "no_overlap s"
  shows "no_overlap (snd (cancelBooking bookingID s))"
proof (cases "firstIndex (\<lambda>b. b_bookingID b = bookingID \<and> b_isActive b) (bookings s)")
  case None
  with inv show ?thesis by (simp add: cancelBooking_def)
next
  case (Some i)
  show ?thesis
    by (rule no_overlap_deactivate [OF inv, where i = i and b = "Booking_cancelBooking (bookings s ! i)"])
       (simp_all add: cancelBooking_def Some Let_def Booking_cancelBooking_def)
qed

lemma Booking_cancelBooking_simps [simp]:
  "b_isActive (Booking_cancelBooking b) = False"
  "b_bookingID (Booking_cancelBooking b) = b_bookingID b"
  "b_userID (Booking_cancelBooking b) = b_userID b"
  "b_vehicleID (Booking_cancelBooking b) = b_vehicleID b"
  "b_dockID (Booking_cancelBooking b) = b_dockID b"
  "b_startTime (Booking_cancelBooking b) = b_startTime b"
  "b_duration (Booking_cancelBooking b) = b_duration b"
  "b_cost (Booking_cancelBooking b) = b_cost b"
  "b_energyConsumed (Booking_cancelBooking b) = b_energyConsumed b"
  "b_chargingType (Booking_cancelBooking b) = b_chargingType b"
  by (simp_all add: Booking_cancelBooking_def)

lemma completeBooking_bookings:
  assumes i: "firstIndex (\<lambda>b. b_bookingID b = bookingID \<and> b_isActive b) (bookings s) = Some i"
  shows "\<exists>b. \<not> b_isActive b \<and> bookings (snd (completeBooking w bookingID s)) = (bookings s)[i := b]"
proof (cases "firstIndex (\<lambda>d. d_dockID d = b_dockID (bookings s ! i)) (docks s)")
  case None
  show ?thesis
    unfolding completeBooking_def i option.case Let_def Booking_cancelBooking_simps None
    by (intro exI [of _ "Booking_cancelBooking (bookings s ! i)"]) simp
next
  case (Some j)
  show ?thesis
  proof (cases "d_energySource (docks s ! j)")
    case None
    show ?thesis
      unfolding completeBooking_def i option.case Let_def Booking_cancelBooking_simps Some None
      by (intro exI [of _ "Booking_cancelBooking (bookings s ! i)"]) simp
  next
    case (Some src)
    show ?thesis
      unfolding completeBooking_def i option.case Let_def Booking_cancelBooking_simps \<open>firstIndex _ (docks s) = Some j\<close> Some
      by (rule exI [where x = "Booking_cancelBooking (bookings s ! i)\<lparr>b_energyConsumed := _, b_cost := _\<rparr>"])
         (simp split del: if_split)
  qed
qed

lemma completeBooking_no_overlap:
  assumes inv: "no_overlap s"
  shows "no_overlap (snd (completeBooking w bookingID s))"
proof (cases "firstIndex (\<lambda>b. b_bookingID b = bookingID \<and> b_isActive b) (bookings s)")
  case None
  with inv show ?thesis by (simp add: completeBooking_def)
next
  case (Some i)
  from completeBooking_bookings [OF Some, of w] obtain b where
    b: "\<not> b_isActive b" "bookings (snd (completeBooking w bookingID s)) = (bookings s)[i := b]"
    by blast
  show ?thesis by (rule no_overlap_deactivate [OF inv b(2) b(1)])
qed

lemma dischargeToGrid_bookings [simp]:
  "bookings (snd (dischargeToGrid vehicleID dischargeEnergy s)) = bookings s"
  by (simp add: dischargeToGrid_def split: option.splits prod.splits)

subsection \<open>The results of \<^verbatim>\<open>cancelBooking\<close> and \<^verbatim>\<open>completeBooking\<close>\<close>

lemma length_setDockOccupancy [simp]: "length (setDockOccupancy dockID occ v ds) = length ds"
  by (simp add: setDockOccupancy_def split: option.split)

lemma setDockOccupancy_ids [simp]:
  "map d_dockID (setDockOccupancy dockID occ v ds) = map d_dockID ds"
  by (auto simp: setDockOccupancy_def map_update list_eq_iff_nth_eq nth_list_update
      split: option.split dest: firstIndex_Some)

lemma firstIndex_map: "firstIndex (\<lambda>x. P (f x)) xs = firstIndex P (map f xs)"
  by (induction xs) simp_all

lemma firstIndex_setDockOccupancy [simp]:
  "firstIndex (\<lambda>d. d_dockID d = x) (setDockOccupancy dockID occ v ds) =
   firstIndex (\<lambda>d. d_dockID d = x) ds"
proof -
  have e: "firstIndex (\<lambda>d. d_dockID d = x) ys = firstIndex (\<lambda>k. k = x) (map d_dockID ys)" for ys
    by (rule firstIndex_map [of "\<lambda>k. k = x" d_dockID])
  show ?thesis by (simp only: e setDockOccupancy_ids)
qed

lemma setDockOccupancy_nth:
  "firstIndex (\<lambda>d. d_dockID d = dockID) ds = Some j \<Longrightarrow>
   setDockOccupancy dockID occ v ds ! j = (ds ! j)\<lparr>d_isOccupied := occ, d_currentVehicleID := v\<rparr>"
  by (auto simp: setDockOccupancy_def dest: firstIndex_Some)

lemma cancelBooking_found:
  assumes i: "firstIndex (\<lambda>b. b_bookingID b = bookingID \<and> b_isActive b) (bookings s) = Some i"
  shows "cancelBooking bookingID s =
     ([(b_userID (bookings s ! i), ''Booking cancelled. Penalty charged: $'',
        (if b_startTime (bookings s ! i) - systemStartTime s < 1 then 5
         else if b_startTime (bookings s ! i) - systemStartTime s < 4 then 2 else 0))],
      s\<lparr>bookings := (bookings s)[i := (bookings s ! i)\<lparr>b_isActive := False\<rparr>],
        docks := setDockOccupancy (b_dockID (bookings s ! i)) False (- 1) (docks s)\<rparr>)"
  unfolding cancelBooking_def i option.case Let_def Booking_cancelBooking_def ..

lemma cancelBooking_not_found:
  "firstIndex (\<lambda>b. b_bookingID b = bookingID \<and> b_isActive b) (bookings s) = None \<Longrightarrow>
   cancelBooking bookingID s = ([], s)"
  by (simp add: cancelBooking_def)

lemma completeBooking_not_found:
  "firstIndex (\<lambda>b. b_bookingID b = bookingID \<and> b_isActive b) (bookings s) = None \<Longrightarrow>
   completeBooking w bookingID s = ([], s)"
  by (simp add: completeBooking_def)

lemma completeBooking_found:
  fixes w :: WeatherCondition
  assumes i: "firstIndex (\<lambda>b. b_bookingID b = bookingID \<and> b_isActive b) (bookings s) = Some i"
    and j: "firstIndex (\<lambda>d. d_dockID d = b_dockID (bookings s ! i)) (docks s) = Some j"
    and src: "d_energySource (docks s ! j) = Some src"
  defines "b \<equiv> bookings s ! i"
  defines "energy \<equiv> getAvailablePower w src (real_of_int (d_powerRating (docks s ! j))) * b_duration b"
  defines "rate0 \<equiv> (if b_chargingType b = 1 then 0.2
                      else if b_chargingType b = 2 then 0.3
                      else if b_chargingType b = 3 then 0.4
                      else if b_chargingType b = 4 then 0.15 else (0::real))"
  defines "rate1 \<equiv> (if b_chargingType b = 4 then rate0 * 0.85 else rate0)"
  defines "rate2 \<equiv> (if isPeakHour (b_startTime b) then rate1 * 1.2 else rate1)"
  defines "cost0 \<equiv> energy * (rate2 * getRateAdjustment src)"
  defines "cost \<equiv> (if \<exists>u \<in> set (users s). u_userID u = b_userID b \<and> u_membershipLevel u = 1
                     then cost0 * 0.85 else cost0)"
  shows "completeBooking w bookingID s =
     ([(b_userID b, ''Charging session completed. Energy consumed:'', energy),
       (b_userID b, ''Total cost for the session: $'', cost)],
      s\<lparr>bookings := (bookings s)[i := b\<lparr>b_isActive := False, b_energyConsumed := energy, b_cost := cost\<rparr>],
        docks := setDockOccupancy (b_dockID b) False (- 1) (docks s),
        totalOccupiedTime := (totalOccupiedTime s)[j := totalOccupiedTime s ! j + b_duration b],
        vehicles := (case firstIndex (\<lambda>v. ev_vehicleID v = b_vehicleID b) (vehicles s) of
                       None \<Rightarrow> vehicles s
                     | Some k \<Rightarrow> (vehicles s)[k := (vehicles s ! k)\<lparr>ev_batterySOC :=
                         (if ev_batterySOC (vehicles s ! k) + (energy / ev_batteryCapacity (vehicles s ! k)) * 100 > 100
                          then 100
                          else ev_batterySOC (vehicles s ! k) + (energy / ev_batteryCapacity (vehicles s ! k)) * 100)\<rparr>])\<rparr>)"
proof -
  have v: "vehicles (s\<lparr>bookings := X, docks := Y\<rparr>) = vehicles s" for X Y by simp
  have t: "totalOccupiedTime (s\<lparr>bookings := X, docks := Y\<rparr>) = totalOccupiedTime s" for X Y by simp
  have bk: "bookings (s\<lparr>bookings := X, docks := Y\<rparr>) = X" for X Y by simp
  show ?thesis
    unfolding completeBooking_def i option.case Let_def Booking_cancelBooking_simps j src v t bk
      b_def energy_def rate0_def rate1_def rate2_def cost0_def cost_def
    by (simp add: Booking_cancelBooking_def split del: if_split cong: if_cong option.case_cong)
qed

lemma setDockOccupancy_all_free:
  assumes dist: "distinct (map d_dockID ds)"
    and d: "d \<in> set (setDockOccupancy dockID occ v ds)" and eq: "d_dockID d = dockID"
  shows "d_isOccupied d = occ \<and> d_currentVehicleID d = v"
proof -
  let ?ds' = "setDockOccupancy dockID occ v ds"
  from d obtain k where k: "k < length ?ds'" "?ds' ! k = d"
    by (auto simp: in_set_conv_nth)
  then have kl: "k < length ds" by simp
  have ids: "map d_dockID ?ds' ! k = map d_dockID ds ! k" by simp
  with k kl eq have idk: "d_dockID (ds ! k) = dockID"
    by (metis length_setDockOccupancy nth_map)
  then have "\<exists>x \<in> set ds. d_dockID x = dockID" using kl by auto
  then obtain j where j: "firstIndex (\<lambda>x. d_dockID x = dockID) ds = Some j"
    using firstIndex_ex [of ds "\<lambda>x. d_dockID x = dockID"] by blast
  from firstIndex_Some [OF j] have jl: "j < length ds" and idj: "d_dockID (ds ! j) = dockID"
    by simp_all
  from dist kl jl idk idj have "k = j"
    by (metis distinct_conv_nth length_map nth_map)
  with k setDockOccupancy_nth [OF j, of occ v] show ?thesis by auto
qed


lemma completeBooking_no_dock:
  assumes i: "firstIndex (\<lambda>b. b_bookingID b = bookingID \<and> b_isActive b) (bookings s) = Some i"
    and j: "firstIndex (\<lambda>d. d_dockID d = b_dockID (bookings s ! i)) (docks s) = None
            \<or> (\<exists>j. firstIndex (\<lambda>d. d_dockID d = b_dockID (bookings s ! i)) (docks s) = Some j \<and>
                    d_energySource (docks s ! j) = None)"
  shows "completeBooking w bookingID s =
     ([], s\<lparr>bookings := (bookings s)[i := (bookings s ! i)\<lparr>b_isActive := False\<rparr>],
          docks := setDockOccupancy (b_dockID (bookings s ! i)) False (- 1) (docks s)\<rparr>)"
  using j
proof (elim disjE exE conjE)
  assume n: "firstIndex (\<lambda>d. d_dockID d = b_dockID (bookings s ! i)) (docks s) = None"
  show ?thesis
    unfolding completeBooking_def i option.case Let_def Booking_cancelBooking_simps n
    by (simp add: Booking_cancelBooking_def)
next
  fix j
  assume n: "firstIndex (\<lambda>d. d_dockID d = b_dockID (bookings s ! i)) (docks s) = Some j"
    and e: "d_energySource (docks s ! j) = None"
  show ?thesis
    unfolding completeBooking_def i option.case Let_def Booking_cancelBooking_simps n e
    by (simp add: Booking_cancelBooking_def)
qed


subsection \<open>What the menu does to the ledger and to the anchor\<close>

lemma createBooking_bookings:
  "bookings (snd (snd (createBooking w uID vID startTime duration powerRating chargingType s))) = bookings s \<or>
   (\<exists>dockID adj. bookings (snd (snd (createBooking w uID vID startTime duration powerRating chargingType s))) =
      bookings s @ [Booking_createBooking (int (length (bookings s)) + 1) uID vID dockID (stationID s)
                      adj duration chargingType])"
proof -
  define adj where "adj = (if isPeakHour startTime \<and> \<not> isCriticalBooking s uID vID then PEAK_END else startTime)"
  define dockID where "dockID = findAvailableDock w s powerRating adj duration (chargingType = 4)"
  have "bookings (snd (snd (createBooking w uID vID startTime duration powerRating chargingType s))) = bookings s \<or>
     bookings (snd (snd (createBooking w uID vID startTime duration powerRating chargingType s))) =
      bookings s @ [Booking_createBooking (int (length (bookings s)) + 1) uID vID dockID (stationID s)
                      adj duration chargingType]"
    unfolding createBooking_eq Let_def dockID_def adj_def by simp
  then show ?thesis by blast
qed

lemma createBooking_systemStartTime:
  "bookings s \<noteq> [] \<Longrightarrow>
   systemStartTime (snd (snd (createBooking w uID vID startTime duration powerRating chargingType s)))
     = systemStartTime s"
  unfolding createBooking_eq Let_def by simp

lemma main_case3_bookings:
  "bookings (snd (snd (main_case3 w uID vID startTime duration chargingType s))) = bookings s \<or>
   (\<exists>dockID adj. bookings (snd (snd (main_case3 w uID vID startTime duration chargingType s))) =
      bookings s @ [Booking_createBooking (int (length (bookings s)) + 1) uID vID dockID (stationID s)
                      adj duration chargingType])"
proof -
  note c = createBooking_bookings [of w uID vID startTime duration _ chargingType s]
  consider "chargingType = 1" | "chargingType = 2" | "chargingType = 3" | "chargingType = 4"
    | "chargingType \<notin> {1, 2, 3, 4}" by auto
  then show ?thesis
  proof cases
    case 1
    with c [of SLOW] show ?thesis by (simp add: main_case3_def)
  next
    case 2
    with c [of MEDIUM] show ?thesis by (simp add: main_case3_def)
  next
    case 3
    with c [of FAST] show ?thesis by (simp add: main_case3_def)
  next
    case 4
    with c [of SOLAR] show ?thesis by (simp add: main_case3_def)
  next
    case 5
    then show ?thesis by (simp add: main_case3_def)
  qed
qed

lemma main_case3_systemStartTime:
  "bookings s \<noteq> [] \<Longrightarrow>
   systemStartTime (snd (snd (main_case3 w uID vID startTime duration chargingType s))) = systemStartTime s"
  by (simp add: main_case3_def createBooking_systemStartTime)

lemma cancelBooking_frame:
  "systemStartTime (snd (cancelBooking bookingID s)) = systemStartTime s \<and>
   vehicles (snd (cancelBooking bookingID s)) = vehicles s \<and>
   users (snd (cancelBooking bookingID s)) = users s \<and>
   totalOccupiedTime (snd (cancelBooking bookingID s)) = totalOccupiedTime s \<and>
   length (bookings (snd (cancelBooking bookingID s))) = length (bookings s)"
  by (cases "firstIndex (\<lambda>b. b_bookingID b = bookingID \<and> b_isActive b) (bookings s)")
     (simp_all add: cancelBooking_not_found cancelBooking_found)

lemma completeBooking_update:
  assumes i: "firstIndex (\<lambda>b. b_bookingID b = bookingID \<and> b_isActive b) (bookings s) = Some i"
  shows "\<exists>e c.
         bookings (snd (completeBooking w bookingID s)) =
           (bookings s)[i := (bookings s ! i)\<lparr>b_isActive := False, b_energyConsumed := e, b_cost := c\<rparr>] \<and>
         systemStartTime (snd (completeBooking w bookingID s)) = systemStartTime s \<and>
         users (snd (completeBooking w bookingID s)) = users s \<and>
         docks (snd (completeBooking w bookingID s)) =
           setDockOccupancy (b_dockID (bookings s ! i)) False (- 1) (docks s)"
proof (cases "\<exists>j src. firstIndex (\<lambda>d. d_dockID d = b_dockID (bookings s ! i)) (docks s) = Some j \<and>
                  d_energySource (docks s ! j) = Some src")
  case False
  then have "firstIndex (\<lambda>d. d_dockID d = b_dockID (bookings s ! i)) (docks s) = None
            \<or> (\<exists>j. firstIndex (\<lambda>d. d_dockID d = b_dockID (bookings s ! i)) (docks s) = Some j \<and>
                    d_energySource (docks s ! j) = None)"
    by (cases "firstIndex (\<lambda>d. d_dockID d = b_dockID (bookings s ! i)) (docks s)") auto
  note e = completeBooking_no_dock [OF i this, of w]
  show ?thesis
    by (rule exI [of _ "b_energyConsumed (bookings s ! i)"], rule exI [of _ "b_cost (bookings s ! i)"])
       (simp add: e)
next
  case True
  then obtain j src where j: "firstIndex (\<lambda>d. d_dockID d = b_dockID (bookings s ! i)) (docks s) = Some j"
    and src: "d_energySource (docks s ! j) = Some src" by blast
  note e = completeBooking_found [OF i j src, of w]
  show ?thesis
    unfolding e by (intro exI conjI) simp_all
qed

lemma completeBooking_frame:
  "systemStartTime (snd (completeBooking w bookingID s)) = systemStartTime s \<and>
   users (snd (completeBooking w bookingID s)) = users s \<and>
   length (bookings (snd (completeBooking w bookingID s))) = length (bookings s)"
proof (cases "firstIndex (\<lambda>b. b_bookingID b = bookingID \<and> b_isActive b) (bookings s)")
  case None
  then show ?thesis by (simp add: completeBooking_not_found)
next
  case (Some i)
  from completeBooking_update [OF Some, of w] show ?thesis by auto
qed

lemma cancelBooking_ledger: "ledger_step (bookings s) (bookings (snd (cancelBooking bookingID s)))"
proof (cases "firstIndex (\<lambda>b. b_bookingID b = bookingID \<and> b_isActive b) (bookings s)")
  case None
  then show ?thesis by (simp add: cancelBooking_not_found ledger_step_def)
next
  case (Some i)
  from firstIndex_Some [OF Some] have "i < length (bookings s)" "b_isActive (bookings s ! i)"
    by simp_all
  then show ?thesis
    unfolding ledger_step_def cancelBooking_found [OF Some]
    by (intro disjI2 exI [of _ i] exI [of _ "(bookings s ! i)\<lparr>b_isActive := False\<rparr>"]) simp
qed

lemma completeBooking_ledger: "ledger_step (bookings s) (bookings (snd (completeBooking w bookingID s)))"
proof (cases "firstIndex (\<lambda>b. b_bookingID b = bookingID \<and> b_isActive b) (bookings s)")
  case None
  then show ?thesis by (simp add: completeBooking_not_found ledger_step_def)
next
  case (Some i)
  from firstIndex_Some [OF Some] have l: "i < length (bookings s)" "b_isActive (bookings s ! i)"
    by simp_all
  from completeBooking_update [OF Some, of w] obtain e c where
    "bookings (snd (completeBooking w bookingID s)) =
       (bookings s)[i := (bookings s ! i)\<lparr>b_isActive := False, b_energyConsumed := e, b_cost := c\<rparr>]"
    by blast
  with l show ?thesis
    unfolding ledger_step_def
    by (intro disjI2 exI [of _ i]
          exI [of _ "(bookings s ! i)\<lparr>b_isActive := False, b_energyConsumed := e, b_cost := c\<rparr>"]) simp
qed

lemma main_case3_ledger:
  "ledger_step (bookings s) (bookings (snd (snd (main_case3 w uID vID startTime duration chargingType s))))"
  using main_case3_bookings [of w uID vID startTime duration chargingType s]
  unfolding ledger_step_def
  by (auto simp: Booking_createBooking_def)

lemma main_switch_ledger: "ledger_step (bookings s) (bookings (snd (main_switch choice (w, s))))"
proof (cases choice)
  case (CreateBooking uID vID startTime duration chargingType)
  then show ?thesis by (simp add: main_case3_ledger)
next
  case (CompleteBooking bookingID)
  then show ?thesis by (simp add: completeBooking_ledger)
next
  case (CancelBooking bookingID)
  then show ?thesis by (simp add: cancelBooking_ledger)
qed (simp_all add: ledger_step_def)

lemma ledger_step_sequentialIDs:
  assumes "ledger_step (bookings s) (bookings s')" and "sequentialIDs s"
  shows "sequentialIDs s'"
  using assms unfolding ledger_step_def sequentialIDs_def
  by (elim disjE exE conjE) (auto simp: nth_append nth_list_update less_Suc_eq)

lemma ledger_step_inactive:
  assumes "ledger_step bs bs'" and "n < length bs" and "\<not> b_isActive (bs ! n)"
  shows "n < length bs' \<and> bs' ! n = bs ! n"
  using assms unfolding ledger_step_def
  by (elim disjE exE conjE) (auto simp: nth_append nth_list_update)

lemma main_switch_anchor:
  assumes "bookings s \<noteq> []"
  shows "systemStartTime (snd (main_switch choice (w, s))) = systemStartTime s \<and>
         bookings (snd (main_switch choice (w, s))) \<noteq> []"
proof -
  have "bookings (snd (main_switch choice (w, s))) \<noteq> []"
    using main_switch_ledger [of s choice w] assms unfolding ledger_step_def by auto
  moreover have "systemStartTime (snd (main_switch choice (w, s))) = systemStartTime s"
    using assms
    by (cases choice)
       (simp_all add: main_case3_systemStartTime cancelBooking_frame completeBooking_frame
          registerUser_def registerVehicle_def dischargeToGrid_def split: option.split prod.split)
  ultimately show ?thesis by simp
qed

lemma main_loop_anchor:
  "bookings (snd c) \<noteq> [] \<Longrightarrow>
   systemStartTime (snd (main_loop choices c)) = systemStartTime (snd c) \<and>
   bookings (snd (main_loop choices c)) \<noteq> []"
proof (induction choices arbitrary: c)
  case Nil
  then show ?case by simp
next
  case (Cons choice choices)
  obtain w s where c: "c = (w, s)" by (cases c)
  with Cons.prems have "bookings s \<noteq> []" by simp
  from main_switch_anchor [OF this, of choice w] Cons.IH [of "main_switch choice (w, s)"] c
  show ?case by simp
qed

lemma main_loop_sequentialIDs:
  "sequentialIDs (snd c) \<Longrightarrow> sequentialIDs (snd (main_loop choices c))"
proof (induction choices arbitrary: c)
  case Nil
  then show ?case by simp
next
  case (Cons choice choices)
  obtain w s where c: "c = (w, s)" by (cases c)
  with Cons.prems have "sequentialIDs (snd (main_switch choice (w, s)))"
    using ledger_step_sequentialIDs [OF main_switch_ledger] by simp
  from Cons.IH [OF this] c show ?case by simp
qed

lemma main_loop_inactive:
  "n < length (bookings (snd c)) \<Longrightarrow> \<not> b_isActive (bookings (snd c) ! n) \<Longrightarrow>
   n < length (bookings (snd (main_loop choices c))) \<and>
   bookings (snd (main_loop choices c)) ! n = bookings (snd c) ! n"
proof (induction choices arbitrary: c)
  case Nil
  then show ?case by simp
next
  case (Cons choice choices)
  obtain w s where c: "c = (w, s)" by (cases c)
  with Cons.prems have p: "n < length (bookings s)" "\<not> b_isActive (bookings s ! n)" by simp_all
  from ledger_step_inactive [OF main_switch_ledger p, of choice w]
  have q: "n < length (bookings (snd (main_switch choice (w, s))))"
    "bookings (snd (main_switch choice (w, s))) ! n = bookings s ! n" by simp_all
  with p have "\<not> b_isActive (bookings (snd (main_switch choice (w, s))) ! n)" by simp
  from Cons.IH [OF q(1) this] q(2) c show ?case by simp
qed

lemma inactive_not_found:
  assumes ids: "sequentialIDs s" and n: "n < length (bookings s)"
    and off: "\<not> b_isActive (bookings s ! n)"
  shows "firstIndex (\<lambda>b. b_bookingID b = int n + 1 \<and> b_isActive b) (bookings s) = None"
  unfolding firstIndex_None
proof
  fix b assume "b \<in> set (bookings s)"
  then obtain i where i: "i < length (bookings s)" "bookings s ! i = b"
    by (auto simp: in_set_conv_nth)
  with ids have "b_bookingID b = int i + 1" by (auto simp: sequentialIDs_def)
  with i off show "\<not> (b_bookingID b = int n + 1 \<and> b_isActive b)" by auto
qed

lemma suitableDocks_subset:
  "dockID \<in> set (suitableDocks w s p st du sol) \<Longrightarrow> \<exists>d \<in> set (docks s). d_dockID d = dockID"
  by (auto simp: suitableDocks_def)


lemma foldl_latest_single:
  "foldl (\<lambda>latest b. let endTime = b_startTime b + b_duration b
                        in if endTime > latest then endTime else latest) t [b]
     = (if b_startTime b + b_duration b > t then b_startTime b + b_duration b else t)"
  by (simp add: Let_def)


lemma createBooking_anchor_irrelevant:
  assumes empty: "bookings s = []"
    and valid: "0 \<le> startTime" "startTime < 24" "0 < duration"
      "\<exists>u \<in> set (users s). u_userID u = uID \<and> u_isRegistered u"
      "\<exists>v \<in> set (vehicles s). ev_vehicleID v = vID \<and> ev_userID v = uID"
  shows "createBooking w uID vID startTime duration powerRating chargingType (s\<lparr>systemStartTime := t\<rparr>)
         = createBooking w uID vID startTime duration powerRating chargingType s"
  unfolding createBooking_eq Let_def
  using empty valid by (simp add: MAX_BOOKINGS_def)


subsection \<open>The example stations\<close>

lemmas ex_defs = station0_def ex_users_def ex_vehicles_def ChargingStation_init_def
  ChargingDock_initialize_def SLOW_def MEDIUM_def FAST_def SOLAR_def MAX_DOCKS_def MAX_BOOKINGS_def
  MAX_USERS_def PEAK_START_def PEAK_END_def

lemmas op_defs = createBooking_def findAvailableDock_def suitableDocks_def isDockAvailable_def
  isCriticalBooking_def isPeakHour_def setDockOccupancy_def Booking_createBooking_def Let_def

lemma station0_reached:
  "main_loop [RegisterUser 1 ''Ali'' 0, RegisterUser 2 ''Sara'' 1,
              RegisterVehicle 1 1 50 40 True, RegisterVehicle 2 2 50 40 False]
     (SUNNY, ChargingStation_init 1) = (SUNNY, station0)"
  by (simp add: station0_def ex_users_def ex_vehicles_def ChargingStation_init_def registerUser_def
        registerVehicle_def User_registerUser_def EV_registerVehicle_def MAX_USERS_def)

lemma station1_eq:
  "station1 =
     station0\<lparr>systemStartTime := 8,
       bookings := [\<lparr>b_bookingID = 1, b_userID = 1, b_vehicleID = 1, b_dockID = 1, b_stationID = 1,
                     b_startTime = 8, b_duration = 1, b_isActive = True, b_cost = 0,
                     b_energyConsumed = 0, b_chargingType = 1\<rparr>],
       docks := [\<lparr>d_dockID = 1, d_powerRating = 7, d_isOccupied = True, d_currentVehicleID = 1,
                   d_energySource = Some GridPower\<rparr>,
                 ChargingDock_initialize 2 SLOW SolarPower,
                 ChargingDock_initialize 3 MEDIUM GridPower,
                 ChargingDock_initialize 4 MEDIUM SolarPower,
                 ChargingDock_initialize 5 FAST GridPower]\<rparr>"
  unfolding station1_def by (simp add: ex_defs op_defs)

lemma stationF_eq:
  "stationF =
     station0\<lparr>systemStartTime := 8,
       bookings := [\<lparr>b_bookingID = 1, b_userID = 1, b_vehicleID = 1, b_dockID = 5, b_stationID = 1,
                     b_startTime = 8, b_duration = 2, b_isActive = True, b_cost = 0,
                     b_energyConsumed = 0, b_chargingType = 3\<rparr>],
       docks := [ChargingDock_initialize 1 SLOW GridPower,
                 ChargingDock_initialize 2 SLOW SolarPower,
                 ChargingDock_initialize 3 MEDIUM GridPower,
                 ChargingDock_initialize 4 MEDIUM SolarPower,
                 \<lparr>d_dockID = 5, d_powerRating = 50, d_isOccupied = True, d_currentVehicleID = 1,
                   d_energySource = Some GridPower\<rparr>]\<rparr>"
  unfolding stationF_def by (simp add: main_case3_def ex_defs op_defs)

lemma stationS_eq:
  "stationS =
     station0\<lparr>systemStartTime := 13,
       bookings := [\<lparr>b_bookingID = 1, b_userID = 2, b_vehicleID = 2, b_dockID = 2, b_stationID = 1,
                     b_startTime = 13, b_duration = 2, b_isActive = True, b_cost = 0,
                     b_energyConsumed = 0, b_chargingType = 4\<rparr>],
       docks := [ChargingDock_initialize 1 SLOW GridPower,
                 \<lparr>d_dockID = 2, d_powerRating = 7, d_isOccupied = True, d_currentVehicleID = 2,
                   d_energySource = Some SolarPower\<rparr>,
                 ChargingDock_initialize 3 MEDIUM GridPower,
                 ChargingDock_initialize 4 MEDIUM SolarPower,
                 ChargingDock_initialize 5 FAST GridPower]\<rparr>"
  unfolding stationS_def by (simp add: main_case3_def ex_defs op_defs)

lemma stationR_eq: "stationR = station0\<lparr>systemStartTime := 2\<rparr>"
  unfolding stationR_def by (simp add: main_case3_def ex_defs op_defs)

lemma stationA_eq:
  "stationA =
     station0\<lparr>systemStartTime := 8,
       bookings := [\<lparr>b_bookingID = 1, b_userID = 1, b_vehicleID = 1, b_dockID = 1, b_stationID = 1,
                     b_startTime = 8, b_duration = 1, b_isActive = True, b_cost = 0,
                     b_energyConsumed = 0, b_chargingType = 1\<rparr>],
       docks := [\<lparr>d_dockID = 1, d_powerRating = 7, d_isOccupied = True, d_currentVehicleID = 1,
                   d_energySource = Some GridPower\<rparr>,
                 ChargingDock_initialize 2 SLOW SolarPower,
                 ChargingDock_initialize 3 MEDIUM GridPower,
                 ChargingDock_initialize 4 MEDIUM SolarPower,
                 ChargingDock_initialize 5 FAST GridPower]\<rparr>"
  unfolding stationA_def stationR_eq by (simp add: main_case3_def ex_defs op_defs)


subsection \<open>The docks and the placement of the bookings\<close>

lemma setDockOccupancy_layout [simp]:
  "map (\<lambda>d. (d_dockID d, d_powerRating d, d_energySource d)) (setDockOccupancy dockID occ v ds)
     = map (\<lambda>d. (d_dockID d, d_powerRating d, d_energySource d)) ds"
  by (auto simp: setDockOccupancy_def map_update list_eq_iff_nth_eq nth_list_update
      split: option.split dest: firstIndex_Some)

lemma suitableDocks_member:
  assumes "dockID \<in> set (suitableDocks w s p st du sol)"
  shows "\<exists>d \<in> set (docks s). \<exists>src. d_dockID d = dockID \<and> d_energySource d = Some src \<and>
           getAvailablePower w src (real_of_int (d_powerRating d)) \<ge> real_of_int p \<and>
           (sol \<longrightarrow> src = SolarPower)"
  using assms by (auto simp: suitableDocks_def split: option.splits)

lemma dock_layout_member:
  assumes "dock_layout s" and "d \<in> set (docks s)"
  shows "(d_dockID d, d_powerRating d, d_energySource d) \<in>
           {(1, 7, Some GridPower), (2, 7, Some SolarPower), (3, 22, Some GridPower),
            (4, 22, Some SolarPower), (5, 50, Some GridPower)}"
proof -
  from assms(2) have "(d_dockID d, d_powerRating d, d_energySource d)
      \<in> set (map (\<lambda>d. (d_dockID d, d_powerRating d, d_energySource d)) (docks s))"
    by simp
  with assms(1) show ?thesis by (simp add: dock_layout_def)
qed

lemma findAvailableDock_placed:
  assumes lay: "dock_layout s"
    and d: "findAvailableDock w s p st du sol \<noteq> - 1"
  shows "findAvailableDock w s p st du sol \<in> {1, 2, 3, 4, 5} \<and>
         (p = 50 \<longrightarrow> findAvailableDock w s p st du sol = 5) \<and>
         (sol \<longrightarrow> findAvailableDock w s p st du sol = 2 \<or> findAvailableDock w s p st du sol = 4)"
proof -
  from suitableDocks_member [OF findAvailableDock_suitable [OF d]] obtain x src where
    x: "x \<in> set (docks s)" "d_dockID x = findAvailableDock w s p st du sol"
      "d_energySource x = Some src"
      "getAvailablePower w src (real_of_int (d_powerRating x)) \<ge> real_of_int p"
      "sol \<longrightarrow> src = SolarPower"
    by blast
  from dock_layout_member [OF lay x(1)] x(2-5) show ?thesis
    by (cases w) auto
qed

lemma bookings_placed_update:
  assumes "bookings_placed s" and "i < length (bookings s)"
    and "bookings s' = (bookings s)[i := b]"
    and "b_dockID b = b_dockID (bookings s ! i)" and "b_chargingType b = b_chargingType (bookings s ! i)"
  shows "bookings_placed s'"
  unfolding bookings_placed_def
proof
  fix x assume "x \<in> set (bookings s')"
  with assms(3) have "x \<in> insert b (set (bookings s))"
    using set_update_subset_insert [of "bookings s" i b] by auto
  moreover from assms(2) have "bookings s ! i \<in> set (bookings s)" by simp
  ultimately show "b_dockID x \<in> {1, 2, 3, 4, 5} \<and>
        (b_chargingType x = 3 \<longrightarrow> b_dockID x = 5) \<and>
        (b_chargingType x = 4 \<longrightarrow> b_dockID x = 2 \<or> b_dockID x = 4)"
    using assms(1,4,5) unfolding bookings_placed_def by (metis insertE)
qed

lemma createBooking_placed:
  assumes lay: "dock_layout s" and pl: "bookings_placed s"
    and fast: "chargingType = 3 \<longrightarrow> powerRating = 50"
  shows "dock_layout (snd (snd (createBooking w uID vID startTime duration powerRating chargingType s))) \<and>
         bookings_placed (snd (snd (createBooking w uID vID startTime duration powerRating chargingType s)))"
proof -
  obtain ok msgs s' where r: "createBooking w uID vID startTime duration powerRating chargingType s = (ok, msgs, s')"
    by (metis prod_cases3)
  have "dock_layout s' \<and> bookings_placed s'"
  proof (cases ok)
    case False
    with r have "createBooking w uID vID startTime duration powerRating chargingType s = (False, msgs, s')"
      by simp
    from createBooking_rejected [OF this] have "docks s' = docks s" "bookings s' = bookings s" by auto
    with lay pl show ?thesis by (simp add: dock_layout_def bookings_placed_def)
  next
    case True
    with r have acc: "createBooking w uID vID startTime duration powerRating chargingType s = (True, msgs, s')"
      by simp
    define adj where "adj = (if isPeakHour startTime \<and> \<not> isCriticalBooking s uID vID then PEAK_END else startTime)"
    define dockID where "dockID = findAvailableDock w s powerRating adj duration (chargingType = 4)"
    note a = createBooking_accepted [OF acc, folded adj_def, folded dockID_def]
    from findAvailableDock_placed [OF lay a(7) [unfolded dockID_def], folded dockID_def] fast
    have d: "dockID \<in> {1, 2, 3, 4, 5}" "chargingType = 3 \<longrightarrow> dockID = 5"
      "chargingType = 4 \<longrightarrow> dockID = 2 \<or> dockID = 4"
      by auto
    have "dock_layout s'" using lay unfolding a(8) dock_layout_def by simp
    moreover have "bookings_placed s'"
      using pl d unfolding a(8) bookings_placed_def by (auto simp: Booking_createBooking_def)
    ultimately show ?thesis by simp
  qed
  with r show ?thesis by simp
qed

lemma main_case3_placed:
  assumes lay: "dock_layout s" and pl: "bookings_placed s"
  shows "dock_layout (snd (snd (main_case3 w uID vID startTime duration chargingType s))) \<and>
         bookings_placed (snd (snd (main_case3 w uID vID startTime duration chargingType s)))"
proof -
  note c = createBooking_placed [OF lay pl, of chargingType _ w uID vID startTime duration]
  consider "chargingType = 1" | "chargingType = 2" | "chargingType = 3" | "chargingType = 4"
    | "chargingType \<notin> {1, 2, 3, 4}" by auto
  then show ?thesis
  proof cases
    case 1
    with c [of SLOW] show ?thesis by (simp add: main_case3_def)
  next
    case 2
    with c [of MEDIUM] show ?thesis by (simp add: main_case3_def)
  next
    case 3
    with c [of FAST] show ?thesis by (simp add: main_case3_def FAST_def)
  next
    case 4
    with c [of SOLAR] show ?thesis by (simp add: main_case3_def)
  next
    case 5
    with lay pl show ?thesis by (simp add: main_case3_def)
  qed
qed

lemma cancelBooking_placed:
  assumes lay: "dock_layout s" and pl: "bookings_placed s"
  shows "dock_layout (snd (cancelBooking bookingID s)) \<and> bookings_placed (snd (cancelBooking bookingID s))"
proof (cases "firstIndex (\<lambda>b. b_bookingID b = bookingID \<and> b_isActive b) (bookings s)")
  case None
  with lay pl show ?thesis by (simp add: cancelBooking_not_found)
next
  case (Some i)
  from firstIndex_Some [OF Some] have i: "i < length (bookings s)" by simp
  have "dock_layout (snd (cancelBooking bookingID s))"
    using lay unfolding cancelBooking_found [OF Some] dock_layout_def by simp
  moreover have "bookings_placed (snd (cancelBooking bookingID s))"
    by (rule bookings_placed_update [OF pl i, where b = "(bookings s ! i)\<lparr>b_isActive := False\<rparr>"])
       (simp_all add: cancelBooking_found [OF Some])
  ultimately show ?thesis by simp
qed

lemma completeBooking_placed:
  assumes lay: "dock_layout s" and pl: "bookings_placed s"
  shows "dock_layout (snd (completeBooking w bookingID s)) \<and>
         bookings_placed (snd (completeBooking w bookingID s))"
proof (cases "firstIndex (\<lambda>b. b_bookingID b = bookingID \<and> b_isActive b) (bookings s)")
  case None
  with lay pl show ?thesis by (simp add: completeBooking_not_found)
next
  case (Some i)
  from firstIndex_Some [OF Some] have i: "i < length (bookings s)" by simp
  from completeBooking_update [OF Some, of w] obtain e c where
    u: "bookings (snd (completeBooking w bookingID s)) =
          (bookings s)[i := (bookings s ! i)\<lparr>b_isActive := False, b_energyConsumed := e, b_cost := c\<rparr>]"
       "docks (snd (completeBooking w bookingID s)) =
          setDockOccupancy (b_dockID (bookings s ! i)) False (- 1) (docks s)"
    by blast
  have "dock_layout (snd (completeBooking w bookingID s))"
    using lay unfolding dock_layout_def u(2) by simp
  moreover have "bookings_placed (snd (completeBooking w bookingID s))"
    by (rule bookings_placed_update [OF pl i u(1)]) simp_all
  ultimately show ?thesis by simp
qed

lemma main_switch_placed:
  assumes "dock_layout (snd c) \<and> bookings_placed (snd c)"
  shows "dock_layout (snd (main_switch choice c)) \<and> bookings_placed (snd (main_switch choice c))"
proof -
  obtain w s where c: "c = (w, s)" by (cases c)
  with assms have lay: "dock_layout s" and pl: "bookings_placed s" by simp_all
  show ?thesis
  proof (cases choice)
    case (RegisterUser userID name membershipLevel)
    with c lay pl show ?thesis
      by (simp add: registerUser_def dock_layout_def bookings_placed_def)
  next
    case (RegisterVehicle vehicleID userID soc capacity v2g)
    with c lay pl show ?thesis
      by (simp add: registerVehicle_def dock_layout_def bookings_placed_def)
  next
    case (CreateBooking uID vID startTime duration chargingType)
    with c main_case3_placed [OF lay pl] show ?thesis by simp
  next
    case (CompleteBooking bookingID)
    with c completeBooking_placed [OF lay pl] show ?thesis by simp
  next
    case (CancelBooking bookingID)
    with c cancelBooking_placed [OF lay pl] show ?thesis by simp
  next
    case (DischargeToGrid vehicleID dischargeEnergy)
    with c lay pl show ?thesis
      by (simp add: dischargeToGrid_def dock_layout_def bookings_placed_def split: option.split prod.split)
  next
    case (ChangeWeather weather)
    with c lay pl show ?thesis by simp
  next
    case Display
    with c lay pl show ?thesis by simp
  qed
qed

lemma main_loop_placed:
  "dock_layout (snd c) \<and> bookings_placed (snd c) \<Longrightarrow>
   dock_layout (snd (main_loop choices c)) \<and> bookings_placed (snd (main_loop choices c))"
proof (induction choices arbitrary: c)
  case Nil
  then show ?case by simp
next
  case (Cons choice choices)
  from Cons.IH [OF main_switch_placed [OF Cons.prems]] show ?case by simp
qed

text \<open>
  In every state that the menu reaches from a new station, the dock of an Active booking
  is found and has a source: the Grid source of dock 5 (50 kW) for a Fast booking, a
  Solar source for a Solar booking.
\<close>

lemma billing_sources_reachable:
  assumes i: "firstIndex (\<lambda>b. b_bookingID b = bookingID \<and> b_isActive b)
                (bookings (snd (main_loop choices (w0, ChargingStation_init sID)))) = Some i"
  defines "s \<equiv> snd (main_loop choices (w0, ChargingStation_init sID))"
  shows "\<exists>j src. firstIndex (\<lambda>d. d_dockID d = b_dockID (bookings s ! i)) (docks s) = Some j \<and>
           d_energySource (docks s ! j) = Some src \<and>
           (b_chargingType (bookings s ! i) = 3 \<longrightarrow> src = GridPower \<and> d_powerRating (docks s ! j) = 50) \<and>
           (b_chargingType (bookings s ! i) = 4 \<longrightarrow> src = SolarPower)"
proof -
  have "dock_layout (ChargingStation_init sID) \<and> bookings_placed (ChargingStation_init sID)"
    by (simp add: dock_layout_def bookings_placed_def ChargingStation_init_def ChargingDock_initialize_def
          SLOW_def MEDIUM_def FAST_def)
  from main_loop_placed [of "(w0, ChargingStation_init sID)" choices] this
  have lay: "dock_layout s" and pl: "bookings_placed s" by (simp_all add: s_def)
  from firstIndex_Some [OF i] have "bookings s ! i \<in> set (bookings s)" by (simp add: s_def)
  with pl have b: "b_dockID (bookings s ! i) \<in> {1, 2, 3, 4, 5}"
    "b_chargingType (bookings s ! i) = 3 \<longrightarrow> b_dockID (bookings s ! i) = 5"
    "b_chargingType (bookings s ! i) = 4 \<longrightarrow> b_dockID (bookings s ! i) = 2 \<or> b_dockID (bookings s ! i) = 4"
    by (auto simp: bookings_placed_def)
  from lay obtain d1 d2 d3 d4 d5 where ds: "docks s = [d1, d2, d3, d4, d5]"
    and d: "d_dockID d1 = 1" "d_dockID d2 = 2" "d_dockID d3 = 3" "d_dockID d4 = 4" "d_dockID d5 = 5"
      "d_energySource d1 = Some GridPower" "d_energySource d2 = Some SolarPower"
      "d_energySource d3 = Some GridPower" "d_energySource d4 = Some SolarPower"
      "d_energySource d5 = Some GridPower" "d_powerRating d5 = 50"
    unfolding dock_layout_def by (auto simp: map_eq_Cons_conv)
  from b show ?thesis unfolding ds using d by auto
qed

section \<open>The claims\<close>


subsection \<open>C1: billing at completion\<close>

text \<open>
  Claim C1. \<^verbatim>\<open>completeBooking\<close> on an Active booking (the first Active booking with the
  given ID, whose dock is found and has an energy source) records the energy
  \<open>P * D\<close>, where \<open>P\<close> is the power the dock's source makes available under the
  current weather and \<open>D\<close> the duration of the booking, and the cost \<open>energy * rate\<close>
  with the rate built in this order: the base rate of the charging type (Slow 0.2,
  Medium 0.3, Fast 0.4, Solar 0.15), times 0.85 for the Solar type, times 1.2 when the
  stored start time is in \<open>[12, 18)\<close>, times the rate adjustment of the source (Grid 1,
  Solar 0.9), and the cost times 0.85 when the booking's user is Premium. In particular
  the cost is \<open>P * D * 0.4\<close> for a Fast booking off peak of a user who is not Premium (on
  a Grid dock, the factor 1), and \<open>P * D * 0.15 * 0.85 * 1.2 * 0.9 * 0.85\<close> for a Solar
  booking at a peak start of a Premium user (on a Solar dock, the factor 0.9). The
  booking is no longer Active, and the two notifications carry the energy and the cost.
  In the states that the menu reaches, the dock of an Active booking is always found with
  its source, a Fast booking is on the Grid dock 5 and a Solar booking on a Solar dock
  (lemma \<open>billing_sources_reachable\<close>).
\<close>

theorem completeBooking_billing:
  fixes w :: WeatherCondition
  assumes i: "firstIndex (\<lambda>b. b_bookingID b = bookingID \<and> b_isActive b) (bookings s) = Some i"
    and j: "firstIndex (\<lambda>d. d_dockID d = b_dockID (bookings s ! i)) (docks s) = Some j"
    and src: "d_energySource (docks s ! j) = Some src"
  defines "b \<equiv> bookings s ! i"
  defines "P \<equiv> getAvailablePower w src (real_of_int (d_powerRating (docks s ! j)))"
  defines "D \<equiv> b_duration b"
  defines "premium \<equiv> (\<exists>u \<in> set (users s). u_userID u = b_userID b \<and> u_membershipLevel u = 1)"
  defines "peak \<equiv> (12 \<le> b_startTime b \<and> b_startTime b < 18)"
  defines "b' \<equiv> bookings (snd (completeBooking w bookingID s)) ! i"
  shows "b_energyConsumed b' = P * D \<and>
         b_cost b' =
           P * D *
             (((if b_chargingType b = 1 then 0.2
                else if b_chargingType b = 2 then 0.3
                else if b_chargingType b = 3 then 0.4
                else if b_chargingType b = 4 then 0.15 else 0)
               * (if b_chargingType b = 4 then 0.85 else 1)
               * (if peak then 1.2 else 1))
              * getRateAdjustment src)
             * (if premium then 0.85 else 1) \<and>
         getRateAdjustment GridPower = 1 \<and> getRateAdjustment SolarPower = 0.9 \<and>
         (b_chargingType b = 3 \<and> \<not> peak \<and> \<not> premium \<and> src = GridPower \<longrightarrow>
            b_cost b' = P * D * 0.4) \<and>
         (b_chargingType b = 4 \<and> peak \<and> premium \<and> src = SolarPower \<longrightarrow>
            b_cost b' = P * D * 0.15 * 0.85 * 1.2 * 0.9 * 0.85) \<and>
         \<not> b_isActive b' \<and>
         fst (completeBooking w bookingID s) =
           [(b_userID b, ''Charging session completed. Energy consumed:'', b_energyConsumed b'),
            (b_userID b, ''Total cost for the session: $'', b_cost b')]"
proof -
  from firstIndex_Some [OF i] have len: "i < length (bookings s)" by simp
  note e = completeBooking_found [OF i j src, of w, folded b_def, folded D_def P_def premium_def]
  have pk: "isPeakHour (b_startTime b) = peak"
    by (simp add: isPeakHour_def peak_def PEAK_START_def PEAK_END_def)
  have energy: "b_energyConsumed b' = P * D"
    unfolding b'_def e using len by simp
  have cost: "b_cost b' =
           P * D *
             (((if b_chargingType b = 1 then 0.2
                else if b_chargingType b = 2 then 0.3
                else if b_chargingType b = 3 then 0.4
                else if b_chargingType b = 4 then 0.15 else 0)
               * (if b_chargingType b = 4 then 0.85 else 1)
               * (if peak then 1.2 else 1))
              * getRateAdjustment src)
             * (if premium then 0.85 else 1)"
    unfolding b'_def e pk using len by simp
  have act: "\<not> b_isActive b'"
    unfolding b'_def e using len by simp
  have msgs: "fst (completeBooking w bookingID s) =
           [(b_userID b, ''Charging session completed. Energy consumed:'', b_energyConsumed b'),
            (b_userID b, ''Total cost for the session: $'', b_cost b')]"
    unfolding b'_def e pk using len by simp
  have fast: "b_chargingType b = 3 \<and> \<not> peak \<and> \<not> premium \<and> src = GridPower \<longrightarrow>
            b_cost b' = P * D * 0.4"
    unfolding cost by simp
  have solar: "b_chargingType b = 4 \<and> peak \<and> premium \<and> src = SolarPower \<longrightarrow>
            b_cost b' = P * D * 0.15 * 0.85 * 1.2 * 0.9 * 0.85"
    unfolding cost by simp
  from energy cost fast solar act msgs show ?thesis
    by simp
qed

theorem completeBooking_billing_witness:
  "b_energyConsumed (bookings (snd (completeBooking SUNNY 1 stationF)) ! 0) = 100 \<and>
   b_cost (bookings (snd (completeBooking SUNNY 1 stationF)) ! 0) = 40 \<and>
   b_energyConsumed (bookings (snd (completeBooking SUNNY 1 stationS)) ! 0) = 14 \<and>
   b_cost (bookings (snd (completeBooking SUNNY 1 stationS)) ! 0) = 14 * 0.15 * 0.85 * 1.2 * 0.9 * 0.85"
proof -
  have iF: "firstIndex (\<lambda>b. b_bookingID b = 1 \<and> b_isActive b) (bookings stationF) = Some 0"
    by (simp add: stationF_eq)
  have jF: "firstIndex (\<lambda>d. d_dockID d = b_dockID (bookings stationF ! 0)) (docks stationF) = Some 4"
    by (simp add: stationF_eq ex_defs)
  have srcF: "d_energySource (docks stationF ! 4) = Some GridPower"
    by (simp add: stationF_eq ex_defs)
  have iS: "firstIndex (\<lambda>b. b_bookingID b = 1 \<and> b_isActive b) (bookings stationS) = Some 0"
    by (simp add: stationS_eq)
  have jS: "firstIndex (\<lambda>d. d_dockID d = b_dockID (bookings stationS ! 0)) (docks stationS) = Some 1"
    by (simp add: stationS_eq ex_defs)
  have srcS: "d_energySource (docks stationS ! 1) = Some SolarPower"
    by (simp add: stationS_eq ex_defs)
  have F: "b_energyConsumed (bookings (snd (completeBooking SUNNY 1 stationF)) ! 0) = 100 \<and>
           b_cost (bookings (snd (completeBooking SUNNY 1 stationF)) ! 0) = 40"
    using completeBooking_billing [OF iF jF srcF, of SUNNY]
    by (simp add: stationF_eq ex_defs)
  have S: "b_energyConsumed (bookings (snd (completeBooking SUNNY 1 stationS)) ! 0) = 14 \<and>
           b_cost (bookings (snd (completeBooking SUNNY 1 stationS)) ! 0) = 14 * 0.15 * 0.85 * 1.2 * 0.9 * 0.85"
    using completeBooking_billing [OF iS jS srcS, of SUNNY]
    by (simp add: stationS_eq ex_defs)
  from F S show ?thesis by simp
qed

subsection \<open>C2: deferral of a request at a peak hour\<close>

text \<open>
  Claim C2. A request that reaches the deferral decision (the ledger has room, the time
  and the duration are valid, the user and the vehicle exist and are linked) is deferred
  exactly when its start time is in \<open>[12, 18)\<close> and it is not critical, that is the user
  is not Premium and the vehicle's state of charge is at least 20. A deferred request is
  sent the deferral notification and its effective start time is 18: the dock is searched
  for that time and the booking is stored with it. Every other request, in particular a
  critical one at a peak hour, keeps its own start time. 12 is a peak hour, 11.999 and
  18 are not.
\<close>

theorem createBooking_deferral:
  fixes w :: WeatherCondition and powerRating chargingType :: int and duration :: real
  assumes cap: "length (bookings s) < MAX_BOOKINGS"
    and time: "0 \<le> startTime" "startTime < 24" and dur: "0 < duration"
    and user: "\<exists>u \<in> set (users s). u_userID u = uID \<and> u_isRegistered u"
    and veh: "\<exists>v \<in> set (vehicles s). ev_vehicleID v = vID \<and> ev_userID v = uID"
    and v: "find (\<lambda>v. ev_vehicleID v = vID) (vehicles s) = Some v"
  defines "premium \<equiv> (\<exists>u \<in> set (users s). u_userID u = uID \<and> u_membershipLevel u = 1)"
  defines "deferred \<equiv> (12 \<le> startTime \<and> startTime < 18) \<and> \<not> premium \<and> ev_batterySOC v \<ge> 20"
  defines "effective \<equiv> (if deferred then 18 else startTime)"
  defines "r \<equiv> createBooking w uID vID startTime duration powerRating chargingType s"
  shows "isCriticalBooking s uID vID = (premium \<or> ev_batterySOC v < 20) \<and>
         ((uID, ''Your booking has been deferred due to peak hours. New start time:'', 18)
             \<in> set (fst (snd r))) = deferred \<and>
         fst r = (findAvailableDock w s powerRating effective duration (chargingType = 4) \<noteq> - 1) \<and>
         (fst r \<longrightarrow>
            b_startTime (last (bookings (snd (snd r)))) = effective \<and>
            (uID, ''Upcoming charging session scheduled at:'', effective) \<in> set (fst (snd r))) \<and>
         isPeakHour 12 \<and> \<not> isPeakHour 11.999 \<and> \<not> isPeakHour 18"
proof -
  have crit: "isCriticalBooking s uID vID = (premium \<or> ev_batterySOC v < 20)"
    by (simp add: isCriticalBooking_def v premium_def)
  have adj: "(if deferred then PEAK_END else startTime) = effective"
    by (simp add: effective_def PEAK_END_def)
  have dfr: "(isPeakHour startTime \<and> \<not> isCriticalBooking s uID vID) = deferred"
    unfolding crit deferred_def
    by (auto simp: isPeakHour_def PEAK_START_def PEAK_END_def)
  have valid: "\<not> (length (bookings s) \<ge> MAX_BOOKINGS \<or> startTime < 0 \<or> startTime \<ge> 24 \<or> duration \<le> 0 \<or>
            \<not> (\<exists>u \<in> set (users s). u_userID u = uID \<and> u_isRegistered u) \<or>
            \<not> (\<exists>v \<in> set (vehicles s). ev_vehicleID v = vID \<and> ev_userID v = uID))"
    using cap time dur user veh by auto
  note e = createBooking_eq [of w uID vID startTime duration powerRating chargingType s,
      unfolded Let_def dfr, unfolded adj, folded r_def, unfolded if_not_P [OF valid]]
  show ?thesis
  proof (cases "findAvailableDock w s powerRating effective duration (chargingType = 4) = - 1")
    case True
    with e have "r = (False, (if deferred
        then [(uID, ''Your booking has been deferred due to peak hours. New start time:'', PEAK_END)]
        else []), s\<lparr>systemStartTime := (if bookings s = [] then startTime else systemStartTime s)\<rparr>)"
      by simp
    with True crit show ?thesis
      by (simp add: isPeakHour_def PEAK_START_def PEAK_END_def)
  next
    case False
    with e have "r = (True, (if deferred
        then [(uID, ''Your booking has been deferred due to peak hours. New start time:'', PEAK_END)]
        else []) @ [(uID, ''Upcoming charging session scheduled at:'', effective)],
        s\<lparr>systemStartTime := (if bookings s = [] then startTime else systemStartTime s),
          bookings := bookings s @
            [Booking_createBooking (int (length (bookings s)) + 1) uID vID
               (findAvailableDock w s powerRating effective duration (chargingType = 4)) (stationID s)
               effective duration chargingType],
          docks := setDockOccupancy (findAvailableDock w s powerRating effective duration (chargingType = 4))
                     True vID (docks s)\<rparr>)"
      by simp
    with False crit show ?thesis
      by (simp add: isPeakHour_def PEAK_START_def PEAK_END_def Booking_createBooking_def)
  qed
qed

theorem createBooking_deferral_witness:
  "b_startTime (last (bookings (snd (snd (createBooking SUNNY 1 1 14 1 7 1 station0))))) = 18 \<and>
   b_startTime (last (bookings (snd (snd (createBooking SUNNY 2 2 14 1 7 1 station0))))) = 14 \<and>
   b_startTime (last (bookings (snd (snd (createBooking SUNNY 1 1 12 1 7 1 station0))))) = 18 \<and>
   b_startTime (last (bookings (snd (snd (createBooking SUNNY 1 1 11.999 1 7 1 station0))))) = 11.999 \<and>
   b_startTime (last (bookings (snd (snd (createBooking SUNNY 1 1 18 1 7 1 station0))))) = 18 \<and>
   (1, ''Your booking has been deferred due to peak hours. New start time:'', 18)
      \<notin> set (fst (snd (createBooking SUNNY 1 1 18 1 7 1 station0)))"
proof -
  have cap: "length (bookings station0) < MAX_BOOKINGS" by (simp add: ex_defs)
  have u1: "\<exists>u \<in> set (users station0). u_userID u = 1 \<and> u_isRegistered u" by (simp add: ex_defs)
  have u2: "\<exists>u \<in> set (users station0). u_userID u = 2 \<and> u_isRegistered u" by (simp add: ex_defs)
  have v1: "\<exists>v \<in> set (vehicles station0). ev_vehicleID v = 1 \<and> ev_userID v = 1" by (simp add: ex_defs)
  have v2: "\<exists>v \<in> set (vehicles station0). ev_vehicleID v = 2 \<and> ev_userID v = 2" by (simp add: ex_defs)
  have f1: "find (\<lambda>v. ev_vehicleID v = 1) (vehicles station0) = Some (ex_vehicles ! 0)"
    by (simp add: ex_defs)
  have f2: "find (\<lambda>v. ev_vehicleID v = 2) (vehicles station0) = Some (ex_vehicles ! 1)"
    by (simp add: ex_defs)
  have d: "findAvailableDock SUNNY station0 7 t 1 False \<noteq> - 1" for t
    by (simp add: ex_defs op_defs)
  note a = createBooking_deferral [OF cap _ _ _ u1 v1 f1, where duration = 1 and w = SUNNY
      and powerRating = 7 and chargingType = 1]
  note b = createBooking_deferral [OF cap _ _ _ u2 v2 f2, where duration = 1 and w = SUNNY
      and powerRating = 7 and chargingType = 1]
  from a [of 14] b [of 14] a [of 12] a [of "11.999"] a [of 18] d
  show ?thesis
    by (simp add: ex_defs)
qed

subsection \<open>C3: the candidate docks of an allocation\<close>

text \<open>
  Claim C3 states that the candidates are exactly the docks with (a) no Active booking
  that overlaps the requested interval, (b) enough available power and (c) a Solar
  source for a Solar request, so that a dock whose Active bookings lie outside the
  requested interval is a candidate. The first loop of \<^verbatim>\<open>findAvailableDock\<close> also
  requires \<^verbatim>\<open>!docks[i].isOccupied\<close>. In the example station dock 1 holds the Active
  booking \<open>[8, 9)\<close>; for a request of 7 kW on \<open>[10, 11)\<close> it satisfies (a), (b) and (c),
  and it is not a candidate, because it is flagged occupied.
\<close>

theorem suitableDocks_counterexample:
  "length (bookings station1) = 1 \<and>
   b_dockID (bookings station1 ! 0) = 1 \<and> b_isActive (bookings station1 ! 0) \<and>
   b_startTime (bookings station1 ! 0) = 8 \<and> b_duration (bookings station1 ! 0) = 1 \<and>
   \<not> ((10::real) < 8 + 1 \<and> (8::real) < 10 + 1) \<and>
   isDockAvailable station1 1 10 1 \<and>
   d_dockID (docks station1 ! 0) = 1 \<and>
   d_energySource (docks station1 ! 0) = Some GridPower \<and>
   getAvailablePower SUNNY GridPower (real_of_int (d_powerRating (docks station1 ! 0))) \<ge> real_of_int 7 \<and>
   d_isOccupied (docks station1 ! 0) \<and>
   suitableDocks SUNNY station1 7 10 1 False = [2, 3, 4, 5] \<and>
   1 \<notin> set (suitableDocks SUNNY station1 7 10 1 False)"
  by (simp add: station1_eq ex_defs suitableDocks_def isDockAvailable_def)

text \<open>
  Claim C3, amended. The candidates are, in the order of the docks, exactly the docks
  that are not flagged occupied, have an energy source whose available power under the
  current weather is at least the requested rating, have a Solar source if the request
  is a Solar one, and have no Active booking that conflicts with the requested interval
  under the half-open test (\<^verbatim>\<open>isDockAvailable\<close> is that test, for a ledger within its
  capacity). A dock that is flagged occupied is never a candidate, whatever the
  intervals of its bookings. The dock that \<^verbatim>\<open>findAvailableDock\<close> returns is a candidate.
\<close>

theorem suitableDocks_exact:
  fixes w :: WeatherCondition and powerRating :: int and startTime duration :: real
    and isSolarCharging :: bool
  assumes len: "length (bookings s) \<le> MAX_BOOKINGS"
  defines "free \<equiv> (\<lambda>dockID. \<forall>b \<in> set (bookings s). b_isActive b \<and> b_dockID b = dockID \<longrightarrow>
                       \<not> (startTime < b_startTime b + b_duration b \<and> b_startTime b < startTime + duration))"
  defines "candidate \<equiv> (\<lambda>d. \<not> d_isOccupied d \<and>
                       (\<exists>src. d_energySource d = Some src \<and>
                              getAvailablePower w src (real_of_int (d_powerRating d)) \<ge> real_of_int powerRating \<and>
                              (isSolarCharging \<longrightarrow> src = SolarPower)) \<and>
                       free (d_dockID d))"
  shows "suitableDocks w s powerRating startTime duration isSolarCharging
           = map d_dockID (filter candidate (docks s)) \<and>
         set (suitableDocks w s powerRating startTime duration isSolarCharging)
           = {d_dockID d | d. d \<in> set (docks s) \<and> candidate d} \<and>
         (\<forall>dockID. isDockAvailable s dockID startTime duration = free dockID) \<and>
         (\<forall>d \<in> set (docks s). d_isOccupied d \<longrightarrow> \<not> candidate d) \<and>
         (findAvailableDock w s powerRating startTime duration isSolarCharging \<noteq> - 1 \<longrightarrow>
            findAvailableDock w s powerRating startTime duration isSolarCharging
              \<in> set (suitableDocks w s powerRating startTime duration isSolarCharging))"
proof -
  have av: "isDockAvailable s dockID startTime duration = free dockID" for dockID
    using len by (auto simp: isDockAvailable_def free_def Let_def)
  have c: "(case d_energySource d of
              None \<Rightarrow> False
            | Some src \<Rightarrow>
                \<not> d_isOccupied d \<and>
                getAvailablePower w src (real_of_int (d_powerRating d)) \<ge> real_of_int powerRating \<and>
                (\<not> isSolarCharging \<or> src = SolarPower) \<and>
                isDockAvailable s (d_dockID d) startTime duration) = candidate d" for d
    unfolding av candidate_def by (cases "d_energySource d") auto
  have eq: "suitableDocks w s powerRating startTime duration isSolarCharging
           = map d_dockID (filter candidate (docks s))"
    unfolding suitableDocks_def c ..
  have st: "set (suitableDocks w s powerRating startTime duration isSolarCharging)
           = {d_dockID d | d. d \<in> set (docks s) \<and> candidate d}"
    unfolding eq by auto
  have occ: "\<forall>d \<in> set (docks s). d_isOccupied d \<longrightarrow> \<not> candidate d"
    by (simp add: candidate_def)
  from eq st av occ findAvailableDock_suitable [of w s powerRating startTime duration isSolarCharging]
  show ?thesis by blast
qed

theorem suitableDocks_exact_witness:
  "suitableDocks SUNNY station1 7 10 1 False = [2, 3, 4, 5] \<and>
   suitableDocks SUNNY station1 7 10 1 True = [2, 4] \<and>
   suitableDocks NIGHT station1 7 10 1 False = [3, 5] \<and>
   findAvailableDock SUNNY station1 7 10 1 False \<in> set (suitableDocks SUNNY station1 7 10 1 False)"
proof -
  have len: "length (bookings station1) \<le> MAX_BOOKINGS"
    by (simp add: station1_eq ex_defs)
  have d: "findAvailableDock SUNNY station1 7 10 1 False \<noteq> - 1"
    by (simp add: station1_eq ex_defs findAvailableDock_def suitableDocks_def isDockAvailable_def isPeakHour_def)
  note t = suitableDocks_exact [OF len, where powerRating = 7 and startTime = 10 and duration = 1]
  have "findAvailableDock SUNNY station1 7 10 1 False
          \<in> set (suitableDocks SUNNY station1 7 10 1 False)"
    using t [of SUNNY False] d by blast
  moreover have "suitableDocks SUNNY station1 7 10 1 False = [2, 3, 4, 5] \<and>
      suitableDocks SUNNY station1 7 10 1 True = [2, 4] \<and>
      suitableDocks NIGHT station1 7 10 1 False = [3, 5]"
    using t [of SUNNY False] t [of SUNNY True] t [of NIGHT False]
    by (simp add: station1_eq ex_defs)
  ultimately show ?thesis by blast
qed

subsection \<open>C4: the Active bookings of a dock never overlap\<close>

lemma main_case3_no_overlap:
  "no_overlap s \<Longrightarrow> no_overlap (snd (snd (main_case3 w uID vID startTime duration chargingType s)))"
  by (simp add: main_case3_def createBooking_no_overlap)

lemma no_overlap_same_bookings: "no_overlap s \<Longrightarrow> bookings s' = bookings s \<Longrightarrow> no_overlap s'"
  by (simp add: no_overlap_def)

lemma main_switch_no_overlap:
  "no_overlap (snd c) \<Longrightarrow> no_overlap (snd (main_switch choice c))"
proof (cases c)
  case (Pair w s)
  assume "no_overlap (snd c)"
  with Pair have inv: "no_overlap s" by simp
  show ?thesis
  proof (cases choice)
    case (CreateBooking uID vID startTime duration chargingType)
    with Pair inv show ?thesis by (simp add: main_case3_no_overlap)
  next
    case (CompleteBooking bookingID)
    with Pair inv show ?thesis by (simp add: completeBooking_no_overlap)
  next
    case (CancelBooking bookingID)
    with Pair inv show ?thesis by (simp add: cancelBooking_no_overlap)
  next
    case (RegisterUser userID name membershipLevel)
    with Pair show ?thesis by (simp add: no_overlap_same_bookings [OF inv])
  next
    case (RegisterVehicle vehicleID userID soc capacity v2g)
    with Pair show ?thesis by (simp add: no_overlap_same_bookings [OF inv])
  next
    case (DischargeToGrid vehicleID dischargeEnergy)
    with Pair show ?thesis by (simp add: no_overlap_same_bookings [OF inv])
  next
    case (ChangeWeather weather)
    with Pair inv show ?thesis by simp
  next
    case Display
    with Pair inv show ?thesis by simp
  qed
qed

lemma main_loop_no_overlap:
  "no_overlap (snd c) \<Longrightarrow> no_overlap (snd (main_loop choices c))"
  by (induction choices arbitrary: c) (simp_all add: main_switch_no_overlap)

text \<open>The invariant holds in every state that the menu reaches from a new station.\<close>

lemma no_overlap_reachable: "no_overlap (snd (main_loop choices (w, ChargingStation_init sID)))"
  by (rule main_loop_no_overlap) (simp add: no_overlap_def ChargingStation_init_def)

text \<open>
  Claim C4. If the Active bookings that reference one dock are pairwise free of overlap
  (half-open intervals \<open>[startTime, startTime + duration)\<close>), they still are after each
  operation: a booking request (the method \<^verbatim>\<open>createBooking\<close> with any arguments, and
  the menu entry that calls it), \<^verbatim>\<open>cancelBooking\<close>, \<^verbatim>\<open>completeBooking\<close>, a discharge to
  the grid, a change of weather, and every other choice of the menu.
\<close>

theorem no_overlap_preserved:
  "no_overlap s \<Longrightarrow>
     no_overlap (snd (snd (createBooking w uID vID startTime duration powerRating chargingType s))) \<and>
     no_overlap (snd (snd (main_case3 w uID vID startTime duration chargingType s))) \<and>
     no_overlap (snd (cancelBooking bookingID s)) \<and>
     no_overlap (snd (completeBooking w bookingID s)) \<and>
     no_overlap (snd (dischargeToGrid vehicleID dischargeEnergy s)) \<and>
     no_overlap (snd (main_switch (ChangeWeather weather) (w, s))) \<and>
     no_overlap (snd (main_switch choice (w, s)))"
  using main_switch_no_overlap [of "(w, s)" choice] no_overlap_same_bookings [of s]
  by (simp add: createBooking_no_overlap main_case3_no_overlap cancelBooking_no_overlap
        completeBooking_no_overlap)

theorem no_overlap_preserved_witness:
  "no_overlap station1 \<and>
   no_overlap (snd (snd (createBooking SUNNY 2 2 8 1 7 1 station1))) \<and>
   no_overlap (snd (cancelBooking 1 station1)) \<and>
   no_overlap (snd (completeBooking SUNNY 1 station1)) \<and>
   no_overlap (snd (dischargeToGrid 1 5 station1)) \<and>
   no_overlap (snd (main_switch (ChangeWeather 2) (SUNNY, station1)))"
proof -
  have h: "no_overlap station1"
    by (simp add: no_overlap_def station1_eq)
  from no_overlap_preserved [OF h, where w = SUNNY and uID = 2 and vID = 2 and startTime = 8
      and duration = 1 and powerRating = 7 and chargingType = 1 and bookingID = 1
      and vehicleID = 1 and dischargeEnergy = 5 and weather = 2 and choice = Display] h
  show ?thesis by simp
qed

subsection \<open>C5: the anchor \<^verbatim>\<open>systemStartTime\<close>\<close>

text \<open>
  Claim C5 states that after the first successful booking \<^verbatim>\<open>systemStartTime\<close> equals the
  start time stored on that booking. \<^verbatim>\<open>createBooking\<close> assigns the requested start time
  to \<^verbatim>\<open>systemStartTime\<close> before it decides the deferral. The first request of the
  example station, by the Regular user 1 at 14.0, is deferred: the booking is stored with
  the start time 18, and \<^verbatim>\<open>systemStartTime\<close> is 14.
\<close>

theorem first_booking_anchor_counterexample:
  "bookings station0 = [] \<and>
   fst (createBooking SUNNY 1 1 14 1 7 1 station0) \<and>
   length (bookings (snd (snd (createBooking SUNNY 1 1 14 1 7 1 station0)))) = 1 \<and>
   b_startTime (bookings (snd (snd (createBooking SUNNY 1 1 14 1 7 1 station0))) ! 0) = 18 \<and>
   systemStartTime (snd (snd (createBooking SUNNY 1 1 14 1 7 1 station0))) = 14"
  by (simp add: ex_defs op_defs)

text \<open>
  Claim C5, amended. After the first successful booking of a station (a request accepted
  on an empty ledger) \<^verbatim>\<open>systemStartTime\<close> equals the start time of the request as it
  was asked. The start time stored on the booking is 18 if the request was deferred and
  the requested time otherwise, so the two are equal exactly when the request was not
  deferred. \<^verbatim>\<open>systemStartTime\<close> is the reference point of the cancellation penalty
  (\<open>timeToStart\<close> of the first booking is the stored minus the requested start time) and
  of the time in use that the utilisation report divides by, and no later turn of the
  menu changes it.
\<close>

theorem first_booking_anchor:
  fixes w :: WeatherCondition
  assumes empty: "bookings s = []"
    and acc: "createBooking w uID vID startTime duration powerRating chargingType s = (True, msgs, s')"
  defines "deferred \<equiv> isPeakHour startTime \<and> \<not> isCriticalBooking s uID vID"
  defines "stored \<equiv> b_startTime (bookings s' ! 0)"
  shows "systemStartTime s' = startTime \<and>
         length (bookings s') = 1 \<and> b_bookingID (bookings s' ! 0) = 1 \<and>
         stored = (if deferred then 18 else startTime) \<and>
         (systemStartTime s' = stored) = (\<not> deferred) \<and>
         fst (cancelBooking 1 s') =
           [(uID, ''Booking cancelled. Penalty charged: $'',
             if stored - startTime < 1 then 5 else if stored - startTime < 4 then 2 else 0)] \<and>
         generateReport_totalSystemTime s' = stored + duration - startTime \<and>
         generateReport_utilization s' =
           (foldl (+) 0 (totalOccupiedTime s) / ((stored + duration - startTime) * 5)) * 100 \<and>
         (\<forall>choices w'. systemStartTime (snd (main_loop choices (w', s'))) = startTime)"
proof -
  define adj where "adj = (if isPeakHour startTime \<and> \<not> isCriticalBooking s uID vID then PEAK_END else startTime)"
  define dockID where "dockID = findAvailableDock w s powerRating adj duration (chargingType = 4)"
  define b where "b = Booking_createBooking 1 uID vID dockID (stationID s) adj duration chargingType"
  note a = createBooking_accepted [OF acc, folded adj_def, folded dockID_def]
  have s': "s' = s\<lparr>systemStartTime := startTime, bookings := [b],
                   docks := setDockOccupancy dockID True vID (docks s)\<rparr>"
    unfolding a(8) b_def using empty by simp
  have bs: "bookings s' = [b]" and anchor: "systemStartTime s' = startTime"
    unfolding s' by simp_all
  have bp: "b_bookingID b = 1" "b_isActive b" "b_startTime b = adj" "b_duration b = duration"
    "b_userID b = uID"
    by (simp_all add: b_def Booking_createBooking_def)
  have st: "stored = adj" unfolding stored_def bs using bp by simp
  have adj18: "adj = (if deferred then 18 else startTime)"
    by (simp add: adj_def deferred_def PEAK_END_def)
  have peak: "deferred \<Longrightarrow> startTime < 18"
    by (simp add: deferred_def isPeakHour_def PEAK_END_def)
  have c1: "(systemStartTime s' = stored) = (\<not> deferred)"
    unfolding anchor st adj18 using peak by auto
  have fi: "firstIndex (\<lambda>x. b_bookingID x = 1 \<and> b_isActive x) (bookings s') = Some 0"
    unfolding bs using bp by simp
  have c2: "fst (cancelBooking 1 s') =
           [(uID, ''Booking cancelled. Penalty charged: $'',
             if stored - startTime < 1 then 5 else if stored - startTime < 4 then 2 else 0)]"
    unfolding cancelBooking_found [OF fi] stored_def anchor bs using bp by simp
  have ge: "startTime \<le> adj" unfolding adj18 using peak by auto
  have c3: "generateReport_totalSystemTime s' = stored + duration - startTime"
    unfolding generateReport_totalSystemTime_def Let_def bs anchor foldl_latest_single [unfolded Let_def] st
    using ge a(4) bp by simp
  have pos: "0 < stored + duration - startTime"
    unfolding st using ge a(4) by simp
  have c5: "generateReport_utilization s' =
           (foldl (+) 0 (totalOccupiedTime s) / ((stored + duration - startTime) * 5)) * 100"
    unfolding generateReport_utilization_def Let_def c3 using pos by (simp add: s' MAX_DOCKS_def)
  have c4: "systemStartTime (snd (main_loop choices (w', s'))) = startTime" for choices w'
    using main_loop_anchor [of "(w', s')" choices] bs anchor by simp
  from anchor bs bp st adj18 c1 c2 c3 c4 c5 show ?thesis by simp
qed

theorem first_booking_anchor_witness:
  "systemStartTime (snd (snd (createBooking SUNNY 1 1 14 1 7 1 station0))) = 14 \<and>
   b_startTime (bookings (snd (snd (createBooking SUNNY 1 1 14 1 7 1 station0))) ! 0) = 18 \<and>
   fst (cancelBooking 1 (snd (snd (createBooking SUNNY 1 1 14 1 7 1 station0))))
     = [(1, ''Booking cancelled. Penalty charged: $'', 0)] \<and>
   generateReport_totalSystemTime (snd (snd (createBooking SUNNY 1 1 14 1 7 1 station0))) = 5 \<and>
   systemStartTime (snd (snd (createBooking SUNNY 1 1 8 1 7 1 station0))) = 8 \<and>
   b_startTime (bookings (snd (snd (createBooking SUNNY 1 1 8 1 7 1 station0))) ! 0) = 8 \<and>
   fst (cancelBooking 1 (snd (snd (createBooking SUNNY 1 1 8 1 7 1 station0))))
     = [(1, ''Booking cancelled. Penalty charged: $'', 5)]"
proof -
  have empty: "bookings station0 = []" by (simp add: ex_defs)
  have ok: "fst (createBooking SUNNY 1 1 t 1 7 1 station0)" if "0 \<le> t" "t < 24" for t
    using that by (simp add: ex_defs op_defs)
  have acc: "createBooking SUNNY 1 1 t 1 7 1 station0 =
      (True, fst (snd (createBooking SUNNY 1 1 t 1 7 1 station0)),
       snd (snd (createBooking SUNNY 1 1 t 1 7 1 station0)))" if "0 \<le> t" "t < 24" for t
    using ok [OF that] by (simp add: prod_eq_iff)
  have d14: "isPeakHour 14 \<and> \<not> isCriticalBooking station0 1 1"
    by (simp add: ex_defs isPeakHour_def isCriticalBooking_def)
  have d8: "\<not> isPeakHour 8"
    by (simp add: ex_defs isPeakHour_def)
  from first_booking_anchor [OF empty acc [of 14]] first_booking_anchor [OF empty acc [of 8]] d14 d8
  show ?thesis by simp
qed

subsection \<open>C6: the penalty of a cancellation\<close>

text \<open>
  Claim C6. \<^verbatim>\<open>cancelBooking\<close> on an Active booking notifies its user of a flat penalty
  fixed by \<open>timeToStart = startTime - systemStartTime\<close>: 5 below 1, else 2 below 4, else
  0 (so 0.5 gives 5, 2 gives 2 and 5 gives 0). The booking is no longer Active, nothing
  else of the ledger changes, and the dock that carries the booking's dock ID is marked
  unoccupied with no vehicle.
\<close>

theorem cancelBooking_penalty:
  assumes i: "firstIndex (\<lambda>b. b_bookingID b = bookingID \<and> b_isActive b) (bookings s) = Some i"
  defines "b \<equiv> bookings s ! i"
  defines "timeToStart \<equiv> b_startTime b - systemStartTime s"
  defines "msgs \<equiv> fst (cancelBooking bookingID s)"
  defines "s' \<equiv> snd (cancelBooking bookingID s)"
  shows "msgs = [(b_userID b, ''Booking cancelled. Penalty charged: $'',
                  if timeToStart < 1 then 5 else if timeToStart < 4 then 2 else 0)] \<and>
         (timeToStart = 0.5 \<longrightarrow> msgs = [(b_userID b, ''Booking cancelled. Penalty charged: $'', 5)]) \<and>
         (timeToStart = 2 \<longrightarrow> msgs = [(b_userID b, ''Booking cancelled. Penalty charged: $'', 2)]) \<and>
         (timeToStart = 5 \<longrightarrow> msgs = [(b_userID b, ''Booking cancelled. Penalty charged: $'', 0)]) \<and>
         bookings s' = (bookings s)[i := b\<lparr>b_isActive := False\<rparr>] \<and>
         \<not> b_isActive (bookings s' ! i) \<and>
         (\<forall>j. firstIndex (\<lambda>d. d_dockID d = b_dockID b) (docks s) = Some j \<longrightarrow>
              docks s' ! j = (docks s ! j)\<lparr>d_isOccupied := False, d_currentVehicleID := - 1\<rparr>) \<and>
         (distinct (map d_dockID (docks s)) \<longrightarrow>
            (\<forall>d \<in> set (docks s'). d_dockID d = b_dockID b \<longrightarrow> \<not> d_isOccupied d \<and> d_currentVehicleID d = - 1))"
proof -
  note e = cancelBooking_found [OF i, folded b_def, folded timeToStart_def]
  from firstIndex_Some [OF i] have len: "i < length (bookings s)" by simp
  have m: "msgs = [(b_userID b, ''Booking cancelled. Penalty charged: $'',
                  if timeToStart < 1 then 5 else if timeToStart < 4 then 2 else 0)]"
    unfolding msgs_def e by simp
  have bs: "bookings s' = (bookings s)[i := b\<lparr>b_isActive := False\<rparr>]"
    unfolding s'_def e by simp
  have ds: "docks s' = setDockOccupancy (b_dockID b) False (- 1) (docks s)"
    unfolding s'_def e by simp
  have act: "\<not> b_isActive (bookings s' ! i)"
    unfolding bs using len by simp
  have dock: "\<forall>j. firstIndex (\<lambda>d. d_dockID d = b_dockID b) (docks s) = Some j \<longrightarrow>
              docks s' ! j = (docks s ! j)\<lparr>d_isOccupied := False, d_currentVehicleID := - 1\<rparr>"
    unfolding ds by (simp add: setDockOccupancy_nth)
  have all: "distinct (map d_dockID (docks s)) \<longrightarrow>
            (\<forall>d \<in> set (docks s'). d_dockID d = b_dockID b \<longrightarrow> \<not> d_isOccupied d \<and> d_currentVehicleID d = - 1)"
    unfolding ds using setDockOccupancy_all_free [of "docks s" _ "b_dockID b" False "- 1"] by blast
  have v: "(timeToStart = 0.5 \<longrightarrow> msgs = [(b_userID b, ''Booking cancelled. Penalty charged: $'', 5)]) \<and>
         (timeToStart = 2 \<longrightarrow> msgs = [(b_userID b, ''Booking cancelled. Penalty charged: $'', 2)]) \<and>
         (timeToStart = 5 \<longrightarrow> msgs = [(b_userID b, ''Booking cancelled. Penalty charged: $'', 0)])"
    unfolding m by simp
  from m v bs act dock all show ?thesis by blast
qed

theorem cancelBooking_penalty_witness:
  "fst (cancelBooking 1 (station1\<lparr>systemStartTime := 7.5\<rparr>)) =
     [(1, ''Booking cancelled. Penalty charged: $'', 5)] \<and>
   fst (cancelBooking 1 (station1\<lparr>systemStartTime := 6\<rparr>)) =
     [(1, ''Booking cancelled. Penalty charged: $'', 2)] \<and>
   fst (cancelBooking 1 (station1\<lparr>systemStartTime := 3\<rparr>)) =
     [(1, ''Booking cancelled. Penalty charged: $'', 0)] \<and>
   \<not> b_isActive (bookings (snd (cancelBooking 1 station1)) ! 0) \<and>
   \<not> d_isOccupied (docks (snd (cancelBooking 1 station1)) ! 0)"
proof -
  have i: "firstIndex (\<lambda>b. b_bookingID b = 1 \<and> b_isActive b) (bookings (station1\<lparr>systemStartTime := t\<rparr>)) = Some 0" for t
    by (simp add: station1_eq)
  have i1: "firstIndex (\<lambda>b. b_bookingID b = 1 \<and> b_isActive b) (bookings station1) = Some 0"
    by (simp add: station1_eq)
  have j: "firstIndex (\<lambda>d. d_dockID d = b_dockID (bookings station1 ! 0)) (docks station1) = Some 0"
    by (simp add: station1_eq)
  from cancelBooking_penalty [OF i [of "7.5"]] cancelBooking_penalty [OF i [of 6]]
    cancelBooking_penalty [OF i [of 3]] cancelBooking_penalty [OF i1] j
  show ?thesis
    by (simp add: station1_eq)
qed

subsection \<open>C7: a booking that was cancelled cannot be completed\<close>

text \<open>
  Claim C7. The source keeps one flag \<^verbatim>\<open>isActive\<close> for the state of a booking; a
  booking is Cancelled when it is no longer Active and carries none of the effects of a
  completion. On a station whose bookings carry the IDs the station assigned (1, 2, ...
  in the order of the ledger), a request that is accepted creates an Active booking with
  the next ID. After \<^verbatim>\<open>cancelBooking\<close> on that ID the booking is not Active, its cost and
  energy are 0, no vehicle was charged, no occupied time was added, and the dock that
  carries the booking's dock ID is unoccupied with no vehicle. \<^verbatim>\<open>completeBooking\<close> on
  that ID then returns the station unchanged with no notification, and it still does so
  after any further turns of the menu, which leave the cancelled booking as it is.
\<close>

theorem create_cancel_roundtrip:
  fixes w w' :: WeatherCondition
  assumes ids: "sequentialIDs s"
    and acc: "createBooking w uID vID startTime duration powerRating chargingType s = (True, msgs, s1)"
  defines "n \<equiv> length (bookings s)"
  defines "bookingID \<equiv> int (length (bookings s)) + 1"
  defines "s2 \<equiv> snd (cancelBooking bookingID s1)"
  shows "(b_bookingID (bookings s1 ! n) = bookingID \<and> b_isActive (bookings s1 ! n)) \<and>
         (length (bookings s2) = n + 1 \<and> b_bookingID (bookings s2 ! n) = bookingID \<and>
          \<not> b_isActive (bookings s2 ! n) \<and>
          b_cost (bookings s2 ! n) = 0 \<and> b_energyConsumed (bookings s2 ! n) = 0) \<and>
         (vehicles s2 = vehicles s \<and> totalOccupiedTime s2 = totalOccupiedTime s) \<and>
         (\<exists>j. firstIndex (\<lambda>d. d_dockID d = b_dockID (bookings s2 ! n)) (docks s2) = Some j \<and>
              \<not> d_isOccupied (docks s2 ! j) \<and> d_currentVehicleID (docks s2 ! j) = - 1) \<and>
         completeBooking w' bookingID s2 = ([], s2) \<and>
         (\<forall>choices w''.
            bookings (snd (main_loop choices (w', s2))) ! n = bookings s2 ! n \<and>
            completeBooking w'' bookingID (snd (main_loop choices (w', s2)))
              = ([], snd (main_loop choices (w', s2))))"
proof -
  define adj where "adj = (if isPeakHour startTime \<and> \<not> isCriticalBooking s uID vID then PEAK_END else startTime)"
  define dockID where "dockID = findAvailableDock w s powerRating adj duration (chargingType = 4)"
  define b where "b = Booking_createBooking bookingID uID vID dockID (stationID s) adj duration chargingType"
  note a = createBooking_accepted [OF acc, folded adj_def, folded dockID_def]
  have d: "dockID \<noteq> - 1" by (rule a(7))
  have s1: "s1 = s\<lparr>systemStartTime := (if bookings s = [] then startTime else systemStartTime s),
                   bookings := bookings s @ [b],
                   docks := setDockOccupancy dockID True vID (docks s)\<rparr>"
    unfolding b_def bookingID_def by (rule a(8))
  have b1: "bookings s1 = bookings s @ [b]" and d1: "docks s1 = setDockOccupancy dockID True vID (docks s)"
    and v1: "vehicles s1 = vehicles s" and t1: "totalOccupiedTime s1 = totalOccupiedTime s"
    unfolding s1 by simp_all
  have bn: "bookings s1 ! n = b" unfolding b1 n_def by simp
  have bprops: "b_bookingID b = bookingID" "b_isActive b" "b_cost b = 0" "b_energyConsumed b = 0"
    "b_dockID b = dockID"
    by (simp_all add: b_def Booking_createBooking_def)
  \<comment> \<open>the new booking is the first Active booking with its ID\<close>
  have old: "\<not> (b_bookingID x = bookingID \<and> b_isActive x)" if "x \<in> set (bookings s)" for x
  proof -
    from that obtain i where i: "i < length (bookings s)" "bookings s ! i = x"
      by (auto simp: in_set_conv_nth)
    with ids have "b_bookingID x = int i + 1" by (auto simp: sequentialIDs_def)
    with i show ?thesis by (simp add: bookingID_def)
  qed
  have fi: "firstIndex (\<lambda>x. b_bookingID x = bookingID \<and> b_isActive x) (bookings s1) = Some n"
  proof -
    from bprops have "\<exists>x \<in> set (bookings s1). b_bookingID x = bookingID \<and> b_isActive x"
      unfolding b1 by simp
    from firstIndex_ex [OF this] obtain k where
      k: "firstIndex (\<lambda>x. b_bookingID x = bookingID \<and> b_isActive x) (bookings s1) = Some k" by blast
    from firstIndex_Some [OF k] have kl: "k < length (bookings s1)"
      and kp: "b_bookingID (bookings s1 ! k) = bookingID \<and> b_isActive (bookings s1 ! k)" by simp_all
    have "k = n"
    proof (rule ccontr)
      assume "k \<noteq> n"
      with kl have "k < length (bookings s)" by (simp add: b1 n_def)
      then have "bookings s1 ! k \<in> set (bookings s)" by (simp add: b1 nth_append)
      from old [OF this] kp show False by simp
    qed
    with k show ?thesis by simp
  qed
  note c = cancelBooking_found [OF fi, unfolded bn]
  have b2: "bookings s2 = (bookings s1)[n := b\<lparr>b_isActive := False\<rparr>]"
    and d2: "docks s2 = setDockOccupancy dockID False (- 1) (docks s1)"
    and v2: "vehicles s2 = vehicles s" and t2: "totalOccupiedTime s2 = totalOccupiedTime s"
    unfolding s2_def c by (simp_all add: bprops v1 t1)
  have n2: "n < length (bookings s2)" "bookings s2 ! n = b\<lparr>b_isActive := False\<rparr>"
    unfolding b2 b1 n_def by simp_all
  have c1: "b_bookingID (bookings s1 ! n) = bookingID \<and> b_isActive (bookings s1 ! n)"
    unfolding bn using bprops by simp
  have c2: "length (bookings s2) = n + 1 \<and> b_bookingID (bookings s2 ! n) = bookingID \<and>
          \<not> b_isActive (bookings s2 ! n) \<and>
          b_cost (bookings s2 ! n) = 0 \<and> b_energyConsumed (bookings s2 ! n) = 0"
    unfolding n2 using bprops by (simp add: b2 b1 n_def)
  \<comment> \<open>the dock\<close>
  from d have "dockID \<in> set (suitableDocks w s powerRating adj duration (chargingType = 4))"
    unfolding dockID_def by (rule findAvailableDock_suitable)
  from suitableDocks_subset [OF this] firstIndex_ex [of "docks s" "\<lambda>x. d_dockID x = dockID"]
  obtain j where j: "firstIndex (\<lambda>x. d_dockID x = dockID) (docks s) = Some j" by blast
  have j1: "firstIndex (\<lambda>x. d_dockID x = dockID) (docks s1) = Some j"
    unfolding d1 using j by simp
  have j2: "firstIndex (\<lambda>x. d_dockID x = dockID) (docks s2) = Some j"
    unfolding d2 using j1 by simp
  have "docks s2 ! j = (docks s1 ! j)\<lparr>d_isOccupied := False, d_currentVehicleID := - 1\<rparr>"
    unfolding d2 by (rule setDockOccupancy_nth [OF j1])
  with j2 have c4: "\<exists>j. firstIndex (\<lambda>d. d_dockID d = b_dockID (bookings s2 ! n)) (docks s2) = Some j \<and>
              \<not> d_isOccupied (docks s2 ! j) \<and> d_currentVehicleID (docks s2 ! j) = - 1"
    unfolding n2 using bprops by simp
  \<comment> \<open>completion is impossible, now and later\<close>
  have ids1: "sequentialIDs s1"
    using ids bprops unfolding sequentialIDs_def b1
    by (auto simp: nth_append less_Suc_eq bookingID_def)
  have bid: "bookingID = int n + 1" by (simp add: bookingID_def n_def)
  have ids2: "sequentialIDs s2"
    unfolding sequentialIDs_def
  proof (intro allI impI)
    fix i assume "i < length (bookings s2)"
    then have i: "i < length (bookings s1)" by (simp add: b2)
    show "b_bookingID (bookings s2 ! i) = int i + 1"
    proof (cases "i = n")
      case True
      with n2 bprops bid show ?thesis by simp
    next
      case False
      with i ids1 show ?thesis by (simp add: b2 sequentialIDs_def)
    qed
  qed
  have off2: "\<not> b_isActive (bookings s2 ! n)" unfolding n2 by simp
  have c5: "completeBooking w' bookingID s2 = ([], s2)"
    unfolding bid by (rule completeBooking_not_found [OF inactive_not_found [OF ids2 n2(1) off2]])
  have c6: "bookings (snd (main_loop choices (w', s2))) ! n = bookings s2 ! n \<and>
            completeBooking w'' bookingID (snd (main_loop choices (w', s2)))
              = ([], snd (main_loop choices (w', s2)))" for choices w''
  proof -
    let ?s3 = "snd (main_loop choices (w', s2))"
    from main_loop_inactive [of n "(w', s2)" choices] n2(1) off2
    have st: "n < length (bookings ?s3)" "bookings ?s3 ! n = bookings s2 ! n" by simp_all
    with off2 have off3: "\<not> b_isActive (bookings ?s3 ! n)" by simp
    from main_loop_sequentialIDs [of "(w', s2)" choices] ids2 have ids3: "sequentialIDs ?s3" by simp
    from st(2) completeBooking_not_found [OF inactive_not_found [OF ids3 st(1) off3], of w'']
    show ?thesis unfolding bid by simp
  qed
  from c1 c2 v2 t2 c4 c5 c6 show ?thesis by blast
qed

theorem create_cancel_roundtrip_witness:
  "sequentialIDs station0 \<and>
   createBooking SUNNY 1 1 8 1 7 1 station0 = (True, [(1, ''Upcoming charging session scheduled at:'', 8)], station1) \<and>
   \<not> b_isActive (bookings (snd (cancelBooking 1 station1)) ! 0) \<and>
   b_cost (bookings (snd (cancelBooking 1 station1)) ! 0) = 0 \<and>
   vehicles (snd (cancelBooking 1 station1)) = vehicles station0 \<and>
   completeBooking SUNNY 1 (snd (cancelBooking 1 station1)) = ([], snd (cancelBooking 1 station1)) \<and>
   completeBooking CLOUDY 1 (snd (main_loop [CreateBooking 2 2 9 1 1, CompleteBooking 1, ChangeWeather 1]
                                    (SUNNY, snd (cancelBooking 1 station1))))
     = ([], snd (main_loop [CreateBooking 2 2 9 1 1, CompleteBooking 1, ChangeWeather 1]
                   (SUNNY, snd (cancelBooking 1 station1))))"
proof -
  have ids: "sequentialIDs station0"
    by (simp add: sequentialIDs_def ex_defs)
  have acc: "createBooking SUNNY 1 1 8 1 7 1 station0 =
      (True, [(1, ''Upcoming charging session scheduled at:'', 8)], station1)"
    unfolding station1_def by (simp add: ex_defs op_defs)
  have e: "length (bookings station0) = 0" by (simp add: ex_defs)
  have z: "int 0 + 1 = 1" by simp
  note t = create_cancel_roundtrip [OF ids acc, of SUNNY, unfolded e z]
  from t have later: "\<forall>choices w''.
      completeBooking w'' 1 (snd (main_loop choices (SUNNY, snd (cancelBooking 1 station1))))
        = ([], snd (main_loop choices (SUNNY, snd (cancelBooking 1 station1))))"
    by blast
  from t have now: "\<not> b_isActive (bookings (snd (cancelBooking 1 station1)) ! 0) \<and>
      b_cost (bookings (snd (cancelBooking 1 station1)) ! 0) = 0 \<and>
      vehicles (snd (cancelBooking 1 station1)) = vehicles station0 \<and>
      completeBooking SUNNY 1 (snd (cancelBooking 1 station1)) = ([], snd (cancelBooking 1 station1))"
    by blast
  from later have "completeBooking CLOUDY 1
       (snd (main_loop [CreateBooking 2 2 9 1 1, CompleteBooking 1, ChangeWeather 1]
               (SUNNY, snd (cancelBooking 1 station1))))
     = ([], snd (main_loop [CreateBooking 2 2 9 1 1, CompleteBooking 1, ChangeWeather 1]
                   (SUNNY, snd (cancelBooking 1 station1))))"
    by blast
  with ids acc now show ?thesis by blast
qed

subsection \<open>C8: the requests that are rejected\<close>

text \<open>
  Claim C8 states that a request is rejected, with no booking appended and no dock
  occupied, whenever the start time is outside \<open>[0, 24)\<close>, or the duration is not
  positive, or the charging-type code is unrecognized, or the user does not exist, or the
  vehicle does not exist or is not the user's, or the ledger is full.
  \<^verbatim>\<open>createBooking\<close> does not examine the charging-type code, except to compare it with
  4. On the example station the request of user 1 for one hour at 8.0 with 7 kW and the
  code 9 is accepted: booking 1 is stored with the charging type 9, and dock 1 is
  occupied.
\<close>

theorem request_rejected_counterexample:
  "fst (createBooking SUNNY 1 1 8 1 7 9 station0) \<and>
   bookings station0 = [] \<and>
   length (bookings (snd (snd (createBooking SUNNY 1 1 8 1 7 9 station0)))) = 1 \<and>
   b_chargingType (bookings (snd (snd (createBooking SUNNY 1 1 8 1 7 9 station0))) ! 0) = 9 \<and>
   b_isActive (bookings (snd (snd (createBooking SUNNY 1 1 8 1 7 9 station0))) ! 0) \<and>
   \<not> d_isOccupied (docks station0 ! 0) \<and>
   d_isOccupied (docks (snd (snd (createBooking SUNNY 1 1 8 1 7 9 station0))) ! 0)"
  by (simp add: ex_defs op_defs)

text \<open>
  Claim C8, amended. \<^verbatim>\<open>createBooking\<close>, for any power rating and any charging-type code,
  rejects the request and leaves the station exactly as it was (no booking appended, no
  dock occupied, no notification) whenever the start time is outside \<open>[0, 24)\<close>, or the
  duration is not positive, or the user does not exist, or no vehicle with the given ID
  belongs to the user, or the ledger is full. A charging-type code other than 1 to 4 is
  rejected by the caller: the menu entry that receives the request derives the power
  rating from the code and does not call \<^verbatim>\<open>createBooking\<close> for another code, so that a
  request made through the menu is rejected in all six cases.
\<close>

theorem request_rejected:
  fixes w :: WeatherCondition
  defines "invalid \<equiv> (\<lambda>s uID vID startTime duration.
     startTime < 0 \<or> startTime \<ge> 24 \<or> duration \<le> (0::real) \<or>
     \<not> (\<exists>u \<in> set (users s). u_userID u = uID \<and> u_isRegistered u) \<or>
     \<not> (\<exists>v \<in> set (vehicles s). ev_vehicleID v = vID \<and> ev_userID v = uID) \<or>
     length (bookings s) \<ge> MAX_BOOKINGS)"
  shows "(invalid s uID vID startTime duration \<longrightarrow>
            createBooking w uID vID startTime duration powerRating chargingType s = (False, [], s)) \<and>
         (invalid s uID vID startTime duration \<or> chargingType \<notin> {1, 2, 3, 4} \<longrightarrow>
            main_case3 w uID vID startTime duration chargingType s = (False, [], s))"
proof -
  have c: "createBooking w uID vID startTime duration p ct s = (False, [], s)"
    if "invalid s uID vID startTime duration" for p ct
    using that unfolding createBooking_eq Let_def invalid_def
    by (intro if_P) blast
  have m: "main_case3 w uID vID startTime duration chargingType s = (False, [], s)"
    if "chargingType \<notin> {1, 2, 3, 4}"
    using that by (simp add: main_case3_def)
  have m': "main_case3 w uID vID startTime duration chargingType s = (False, [], s)"
    if "invalid s uID vID startTime duration"
    using c [OF that] by (simp add: main_case3_def)
  from c m m' show ?thesis by blast
qed

theorem request_rejected_witness:
  "main_case3 SUNNY 1 1 24 1 1 station0 = (False, [], station0) \<and>
   main_case3 SUNNY 1 1 (- 1) 1 1 station0 = (False, [], station0) \<and>
   main_case3 SUNNY 1 1 8 0 1 station0 = (False, [], station0) \<and>
   main_case3 SUNNY 1 1 8 1 5 station0 = (False, [], station0) \<and>
   main_case3 SUNNY 3 1 8 1 1 station0 = (False, [], station0) \<and>
   main_case3 SUNNY 1 2 8 1 1 station0 = (False, [], station0) \<and>
   main_case3 SUNNY 1 1 8 1 1 (station0\<lparr>bookings := replicate 20 (bookings station1 ! 0)\<rparr>)
     = (False, [], station0\<lparr>bookings := replicate 20 (bookings station1 ! 0)\<rparr>) \<and>
   createBooking SUNNY 1 2 8 1 7 1 station0 = (False, [], station0)"
proof -
  note t = request_rejected [where w = SUNNY and s = station0 and powerRating = 7]
  note a = t [where uID = 1 and vID = 1 and startTime = 24 and duration = 1 and chargingType = 1]
  note b = t [where uID = 1 and vID = 1 and startTime = "- 1" and duration = 1 and chargingType = 1]
  note c = t [where uID = 1 and vID = 1 and startTime = 8 and duration = 0 and chargingType = 1]
  note d = t [where uID = 1 and vID = 1 and startTime = 8 and duration = 1 and chargingType = 5]
  note e = t [where uID = 3 and vID = 1 and startTime = 8 and duration = 1 and chargingType = 1]
  note f = t [where uID = 1 and vID = 2 and startTime = 8 and duration = 1 and chargingType = 1]
  note g = request_rejected [where w = SUNNY
      and s = "station0\<lparr>bookings := replicate 20 (bookings station1 ! 0)\<rparr>" and powerRating = 7
      and uID = 1 and vID = 1 and startTime = 8 and duration = 1 and chargingType = 1]
  from a b c d e f g
  show ?thesis
    by (simp add: ex_defs)
qed

subsection \<open>C9: the state of charge stays within 0 and 100\<close>

text \<open>
  The paths that keep the bounds: a discharge of a non-negative amount of energy, from a
  vehicle with a positive capacity, leaves the state of charge within \<open>[0, 100]\<close> and
  returns \<open>min energy (SOC / 100 * capacity)\<close>, or 0 for a vehicle without V2G; and the
  completion of a booking keeps every state of charge within \<open>[0, 100]\<close>.
\<close>

lemma EV_dischargeToGrid_bounds:
  assumes e: "0 \<le> energy" and c: "0 < ev_batteryCapacity v"
    and lo: "0 \<le> ev_batterySOC v" and hi: "ev_batterySOC v \<le> 100"
  shows "0 \<le> ev_batterySOC (snd (EV_dischargeToGrid energy v)) \<and>
         ev_batterySOC (snd (EV_dischargeToGrid energy v)) \<le> 100 \<and>
         fst (EV_dischargeToGrid energy v) =
           (if ev_supportsV2G v then min energy ((ev_batterySOC v / 100) * ev_batteryCapacity v) else 0)"
proof (cases "ev_supportsV2G v")
  case False
  with lo hi show ?thesis by (simp add: EV_dischargeToGrid_def)
next
  case True
  define d where "d = min energy ((ev_batterySOC v / 100) * ev_batteryCapacity v)"
  define x where "x = (d / ev_batteryCapacity v) * 100"
  have d0: "0 \<le> d" using e c lo by (simp add: d_def)
  have "d \<le> (ev_batterySOC v / 100) * ev_batteryCapacity v" by (simp add: d_def)
  then have "d / ev_batteryCapacity v \<le> ev_batterySOC v / 100"
    using c by (simp add: pos_divide_le_eq)
  then have x1: "x \<le> ev_batterySOC v" by (simp add: x_def)
  have x0: "0 \<le> x" using d0 c by (simp add: x_def)
  have r: "EV_dischargeToGrid energy v =
      (d, v\<lparr>ev_batterySOC := (if ev_batterySOC v - x < 0 then 0 else ev_batterySOC v - x)\<rparr>)"
    unfolding EV_dischargeToGrid_def Let_def x_def d_def using True by simp
  from x0 x1 hi True show ?thesis unfolding r by (simp add: d_def)
qed

lemma completeBooking_SOC_bounds:
  assumes veh: "\<forall>v \<in> set (vehicles s). 0 \<le> ev_batterySOC v \<and> ev_batterySOC v \<le> 100 \<and> 0 < ev_batteryCapacity v"
    and dur: "\<forall>b \<in> set (bookings s). 0 \<le> b_duration b"
    and pow: "\<forall>d \<in> set (docks s). 0 \<le> d_powerRating d"
  shows "\<forall>v \<in> set (vehicles (snd (completeBooking w bookingID s))).
           0 \<le> ev_batterySOC v \<and> ev_batterySOC v \<le> 100"
proof (cases "firstIndex (\<lambda>b. b_bookingID b = bookingID \<and> b_isActive b) (bookings s)")
  case None
  with veh show ?thesis by (simp add: completeBooking_not_found)
next
  case (Some i)
  show ?thesis
  proof (cases "\<exists>j src. firstIndex (\<lambda>d. d_dockID d = b_dockID (bookings s ! i)) (docks s) = Some j \<and>
                  d_energySource (docks s ! j) = Some src")
    case False
    then have "firstIndex (\<lambda>d. d_dockID d = b_dockID (bookings s ! i)) (docks s) = None
            \<or> (\<exists>j. firstIndex (\<lambda>d. d_dockID d = b_dockID (bookings s ! i)) (docks s) = Some j \<and>
                    d_energySource (docks s ! j) = None)"
      by (cases "firstIndex (\<lambda>d. d_dockID d = b_dockID (bookings s ! i)) (docks s)") auto
    from completeBooking_no_dock [OF Some this, of w] veh show ?thesis by simp
  next
    case True
    then obtain j src where j: "firstIndex (\<lambda>d. d_dockID d = b_dockID (bookings s ! i)) (docks s) = Some j"
      and src: "d_energySource (docks s ! j) = Some src" by blast
    define energy where "energy = getAvailablePower w src (real_of_int (d_powerRating (docks s ! j)))
                                    * b_duration (bookings s ! i)"
    from firstIndex_Some [OF Some] dur have "0 \<le> b_duration (bookings s ! i)" by simp
    moreover from firstIndex_Some [OF j] pow have "0 \<le> d_powerRating (docks s ! j)" by simp
    then have "0 \<le> getAvailablePower w src (real_of_int (d_powerRating (docks s ! j)))"
      by (cases src; cases w) simp_all
    ultimately have e0: "0 \<le> energy" by (simp add: energy_def)
    have vs: "vehicles (snd (completeBooking w bookingID s)) =
        (case firstIndex (\<lambda>v. ev_vehicleID v = b_vehicleID (bookings s ! i)) (vehicles s) of
           None \<Rightarrow> vehicles s
         | Some k \<Rightarrow> (vehicles s)[k := (vehicles s ! k)\<lparr>ev_batterySOC :=
             (if ev_batterySOC (vehicles s ! k) + (energy / ev_batteryCapacity (vehicles s ! k)) * 100 > 100
              then 100
              else ev_batterySOC (vehicles s ! k) + (energy / ev_batteryCapacity (vehicles s ! k)) * 100)\<rparr>])"
      unfolding completeBooking_found [OF Some j src] energy_def by simp
    show ?thesis
    proof (cases "firstIndex (\<lambda>v. ev_vehicleID v = b_vehicleID (bookings s ! i)) (vehicles s)")
      case None
      with vs veh show ?thesis by simp
    next
      case (Some k)
      from firstIndex_Some [OF Some] veh have k: "0 \<le> ev_batterySOC (vehicles s ! k)"
        "0 < ev_batteryCapacity (vehicles s ! k)" by simp_all
      with e0 have "0 \<le> (energy / ev_batteryCapacity (vehicles s ! k)) * 100" by simp
      with k have new: "0 \<le> ev_batterySOC (vehicles s ! k) + (energy / ev_batteryCapacity (vehicles s ! k)) * 100"
        by simp
      show ?thesis
      proof
        fix v assume "v \<in> set (vehicles (snd (completeBooking w bookingID s)))"
        then have "v \<in> set (vehicles s) \<or> v = (vehicles s ! k)\<lparr>ev_batterySOC :=
             (if ev_batterySOC (vehicles s ! k) + (energy / ev_batteryCapacity (vehicles s ! k)) * 100 > 100
              then 100
              else ev_batterySOC (vehicles s ! k) + (energy / ev_batteryCapacity (vehicles s ! k)) * 100)\<rparr>"
          unfolding vs Some option.case using set_update_subset_insert by fastforce
        with veh new show "0 \<le> ev_batterySOC v \<and> ev_batterySOC v \<le> 100"
          by auto
      qed
    qed
  qed
qed

text \<open>
  Claim C9 states that the state of charge of a vehicle with a positive capacity stays
  within \<open>[0, 100]\<close> after every operation. \<^verbatim>\<open>EV::dischargeToGrid\<close> only floors it at 0,
  and the menu passes the amount typed by the user as it is. For vehicle 1 of the
  example station (V2G, 50 percent of 40 kWh) a request to discharge \<open>-40\<close> kWh returns
  \<open>-40\<close> and leaves the state of charge at 150.
\<close>

theorem dischargeToGrid_negative_request:
  "ev_supportsV2G (vehicles station0 ! 0) \<and>
   ev_batteryCapacity (vehicles station0 ! 0) = 40 \<and>
   ev_batterySOC (vehicles station0 ! 0) = 50 \<and>
   fst (dischargeToGrid 1 (- 40) station0) = Some (- 40) \<and>
   ev_batterySOC (vehicles (snd (dischargeToGrid 1 (- 40) station0)) ! 0) = 150"
  by (simp add: dischargeToGrid_def EV_dischargeToGrid_def ex_defs)


subsection \<open>C10: a rejected request and the anchor\<close>

text \<open>
  Claim C10 states that a first request that is rejected for lack of a dock has already
  set \<^verbatim>\<open>systemStartTime\<close> to its start time, that a rejected request changes nothing
  else, and that this request thereby fixes the anchor of all later penalty and
  utilisation computations. The last part fails: the assignment is made whenever
  \<^verbatim>\<open>bookingCount\<close> is 0, and a rejected request leaves it at 0. At night the solar
  request of user 1 at 2.0 is rejected for lack of a dock and sets the anchor to 2; the
  request for slow charging at 8.0 that follows is accepted and sets the anchor to 8. The
  penalty of cancelling that booking is 5 (\<open>timeToStart = 0\<close>; it would be 0 with the
  anchor 2), and the time in use of the report is 1 (it would be 7).
\<close>

theorem rejected_request_anchor_counterexample:
  "bookings station0 = [] \<and>
   \<not> fst (main_case3 NIGHT 1 1 2 1 4 station0) \<and>
   findAvailableDock NIGHT station0 SOLAR 2 1 True = - 1 \<and>
   stationR = station0\<lparr>systemStartTime := 2\<rparr> \<and>
   fst (main_case3 NIGHT 1 1 8 1 1 stationR) \<and>
   systemStartTime stationA = 8 \<and>
   fst (cancelBooking 1 stationA) = [(1, ''Booking cancelled. Penalty charged: $'', 5)] \<and>
   generateReport_totalSystemTime stationA = 1"
proof -
  have "\<not> fst (main_case3 NIGHT 1 1 2 1 4 station0) \<and>
        findAvailableDock NIGHT station0 SOLAR 2 1 True = - 1"
    by (simp add: main_case3_def ex_defs op_defs)
  moreover have "fst (main_case3 NIGHT 1 1 8 1 1 stationR)"
    unfolding stationR_eq by (simp add: main_case3_def ex_defs op_defs)
  moreover have "fst (cancelBooking 1 stationA) = [(1, ''Booking cancelled. Penalty charged: $'', 5)]"
    unfolding stationA_eq by (simp add: cancelBooking_def Let_def)
  moreover have "generateReport_totalSystemTime stationA = 1"
    unfolding stationA_eq by (simp add: generateReport_totalSystemTime_def Let_def)
  moreover have "systemStartTime stationA = 8" "bookings station0 = []"
    by (simp_all add: stationA_eq ex_defs)
  ultimately show ?thesis using stationR_eq by blast
qed

text \<open>
  Claim C10, amended. A request that passes the checks of capacity, time, duration, user
  and vehicle on an empty ledger and is rejected (then for lack of a dock at its
  effective start time) leaves the station with \<^verbatim>\<open>systemStartTime\<close> set to its requested
  start time; every other rejected request leaves the station as it was; in both cases
  the ledger, the docks, the users, the vehicles and the occupied times are unchanged.
  The anchor set by a rejected request is provisional: while the ledger is empty
  cancellation and completion do nothing and the time in use of the report is 0, and
  the next request that is accepted resets the anchor to its own requested start time,
  with the same result as if the rejected request had never been made.
\<close>

theorem rejected_request_anchor:
  fixes w :: WeatherCondition
  assumes rej: "createBooking w uID vID startTime duration powerRating chargingType s = (False, msgs, s')"
  defines "valid \<equiv> length (bookings s) < MAX_BOOKINGS \<and> 0 \<le> startTime \<and> startTime < 24 \<and> 0 < duration \<and>
                      (\<exists>u \<in> set (users s). u_userID u = uID \<and> u_isRegistered u) \<and>
                      (\<exists>v \<in> set (vehicles s). ev_vehicleID v = vID \<and> ev_userID v = uID)"
  defines "effective \<equiv> (if isPeakHour startTime \<and> \<not> isCriticalBooking s uID vID then PEAK_END else startTime)"
  shows "(valid \<and> bookings s = [] \<longrightarrow> s' = s\<lparr>systemStartTime := startTime\<rparr>) \<and>
         (\<not> valid \<or> bookings s \<noteq> [] \<longrightarrow> s' = s) \<and>
         (valid \<longrightarrow> findAvailableDock w s powerRating effective duration (chargingType = 4) = - 1) \<and>
         (bookings s' = bookings s \<and> docks s' = docks s \<and> users s' = users s \<and>
          vehicles s' = vehicles s \<and> totalOccupiedTime s' = totalOccupiedTime s \<and>
          stationID s' = stationID s) \<and>
         (bookings s = [] \<longrightarrow>
            (\<forall>w2 u2 v2 st2 du2 p2 ct2 m2 s''.
                createBooking w2 u2 v2 st2 du2 p2 ct2 s' = (True, m2, s'') \<longrightarrow>
                  systemStartTime s'' = st2 \<and>
                  createBooking w2 u2 v2 st2 du2 p2 ct2 s = (True, m2, s'')) \<and>
            (\<forall>bookingID w2. cancelBooking bookingID s' = ([], s') \<and>
                             completeBooking w2 bookingID s' = ([], s')) \<and>
            generateReport_totalSystemTime s' = 0)"
proof -
  define invalid where "invalid \<longleftrightarrow>
     (length (bookings s) \<ge> MAX_BOOKINGS \<or> startTime < 0 \<or> startTime \<ge> 24 \<or> duration \<le> 0 \<or>
      \<not> (\<exists>u \<in> set (users s). u_userID u = uID \<and> u_isRegistered u) \<or>
      \<not> (\<exists>v \<in> set (vehicles s). ev_vehicleID v = vID \<and> ev_userID v = uID))"
  have iv: "invalid = (\<not> valid)" unfolding invalid_def valid_def by auto
  define dockID where "dockID = findAvailableDock w s powerRating effective duration (chargingType = 4)"
  define anchor where "anchor = (if bookings s = [] then startTime else systemStartTime s)"
  define deferral where "deferral = (if isPeakHour startTime \<and> \<not> isCriticalBooking s uID vID
                      then [(uID, ''Your booking has been deferred due to peak hours. New start time:'', PEAK_END)]
                      else [])"
  define accepted where "accepted = s\<lparr>systemStartTime := anchor,
                 bookings := bookings s @
                   [Booking_createBooking (int (length (bookings s)) + 1) uID vID dockID (stationID s)
                      effective duration chargingType],
                 docks := setDockOccupancy dockID True vID (docks s)\<rparr>"
  have e: "createBooking w uID vID startTime duration powerRating chargingType s =
     (if invalid then (False, [], s)
      else if dockID = - 1
           then (False, deferral, s\<lparr>systemStartTime := anchor\<rparr>)
           else (True, deferral @ [(uID, ''Upcoming charging session scheduled at:'', effective)], accepted))"
    unfolding createBooking_eq Let_def invalid_def deferral_def accepted_def dockID_def effective_def anchor_def ..
  have c1: "s' = s" if "\<not> valid"
    using e rej that iv by simp
  have nd: "dockID = - 1" if valid
  proof (rule ccontr)
    assume "dockID \<noteq> - 1"
    with e rej that iv show False by simp
  qed
  have c2: "s' = s\<lparr>systemStartTime := anchor\<rparr>" if valid
    using e rej that iv nd [OF that] by simp
  have c3: "s' = s" if "bookings s \<noteq> []"
    using createBooking_rejected [OF rej] that by simp
  have fr: "s' = s \<or> s' = s\<lparr>systemStartTime := startTime\<rparr>"
    using createBooking_rejected [OF rej] by blast
  then have frame: "bookings s' = bookings s \<and> docks s' = docks s \<and> users s' = users s \<and>
          vehicles s' = vehicles s \<and> totalOccupiedTime s' = totalOccupiedTime s \<and>
          stationID s' = stationID s"
    by auto
  have next_req: "systemStartTime s'' = st2 \<and> createBooking w2 u2 v2 st2 du2 p2 ct2 s = (True, m2, s'')"
    if empty: "bookings s = []" and acc: "createBooking w2 u2 v2 st2 du2 p2 ct2 s' = (True, m2, s'')"
    for w2 u2 v2 st2 du2 p2 ct2 m2 s''
  proof -
    from frame empty have e': "bookings s' = []" by simp
    note a = createBooking_accepted [OF acc]
    from a(8) e' have "systemStartTime s'' = st2" by simp
    moreover have "createBooking w2 u2 v2 st2 du2 p2 ct2 s' = createBooking w2 u2 v2 st2 du2 p2 ct2 s"
    proof (cases "s' = s")
      case True
      then show ?thesis by simp
    next
      case False
      with fr have s': "s' = s\<lparr>systemStartTime := startTime\<rparr>" by simp
      from a(2-6) have v: "0 \<le> st2" "st2 < 24" "0 < du2"
        "\<exists>u \<in> set (users s). u_userID u = u2 \<and> u_isRegistered u"
        "\<exists>v \<in> set (vehicles s). ev_vehicleID v = v2 \<and> ev_userID v = u2"
        unfolding s' by simp_all
      show ?thesis unfolding s' by (rule createBooking_anchor_irrelevant [OF empty v])
    qed
    ultimately show ?thesis using acc by simp
  qed
  have noop: "cancelBooking bookingID s' = ([], s') \<and> completeBooking w2 bookingID s' = ([], s')"
    if "bookings s = []" for bookingID w2
    using that frame by (simp add: cancelBooking_def completeBooking_def)
  have rep: "generateReport_totalSystemTime s' = 0" if "bookings s = []"
    using that frame by (simp add: generateReport_totalSystemTime_def)
  have p1: "valid \<and> bookings s = [] \<longrightarrow> s' = s\<lparr>systemStartTime := startTime\<rparr>"
    using c2 by (simp add: anchor_def)
  have p2: "\<not> valid \<or> bookings s \<noteq> [] \<longrightarrow> s' = s"
    using c1 c3 by blast
  have p3: "valid \<longrightarrow> findAvailableDock w s powerRating effective duration (chargingType = 4) = - 1"
    using nd by (simp add: dockID_def)
  from p1 p2 p3 frame next_req noop rep show ?thesis by blast
qed

theorem rejected_request_anchor_witness:
  "createBooking NIGHT 1 1 2 1 7 4 station0 = (False, [], station0\<lparr>systemStartTime := 2\<rparr>) \<and>
   bookings (station0\<lparr>systemStartTime := 2\<rparr>) = bookings station0 \<and>
   docks (station0\<lparr>systemStartTime := 2\<rparr>) = docks station0 \<and>
   cancelBooking 1 (station0\<lparr>systemStartTime := 2\<rparr>) = ([], station0\<lparr>systemStartTime := 2\<rparr>) \<and>
   systemStartTime (snd (snd (createBooking NIGHT 1 1 8 1 7 1 (station0\<lparr>systemStartTime := 2\<rparr>)))) = 8 \<and>
   createBooking NIGHT 1 1 8 1 7 1 (station0\<lparr>systemStartTime := 2\<rparr>)
     = createBooking NIGHT 1 1 8 1 7 1 station0"
proof -
  have rej: "createBooking NIGHT 1 1 2 1 7 4 station0 = (False, [], station0\<lparr>systemStartTime := 2\<rparr>)"
    by (simp add: ex_defs op_defs)
  have empty: "bookings station0 = []" by (simp add: ex_defs)
  have acc: "createBooking NIGHT 1 1 8 1 7 1 (station0\<lparr>systemStartTime := 2\<rparr>) =
      (True, fst (snd (createBooking NIGHT 1 1 8 1 7 1 (station0\<lparr>systemStartTime := 2\<rparr>))),
       snd (snd (createBooking NIGHT 1 1 8 1 7 1 (station0\<lparr>systemStartTime := 2\<rparr>))))"
    by (simp add: prod_eq_iff ex_defs op_defs)
  note t = rejected_request_anchor [OF rej]
  from t empty have nxt: "\<forall>w2 u2 v2 st2 du2 p2 ct2 m2 s''.
      createBooking w2 u2 v2 st2 du2 p2 ct2 (station0\<lparr>systemStartTime := 2\<rparr>) = (True, m2, s'') \<longrightarrow>
        systemStartTime s'' = st2 \<and> createBooking w2 u2 v2 st2 du2 p2 ct2 station0 = (True, m2, s'')"
    by blast
  from t empty have c: "cancelBooking 1 (station0\<lparr>systemStartTime := 2\<rparr>) = ([], station0\<lparr>systemStartTime := 2\<rparr>)"
    by blast
  from t have f: "bookings (station0\<lparr>systemStartTime := 2\<rparr>) = bookings station0 \<and>
      docks (station0\<lparr>systemStartTime := 2\<rparr>) = docks station0"
    by blast
  from nxt acc have "systemStartTime (snd (snd (createBooking NIGHT 1 1 8 1 7 1 (station0\<lparr>systemStartTime := 2\<rparr>)))) = 8 \<and>
      createBooking NIGHT 1 1 8 1 7 1 station0 =
        (True, fst (snd (createBooking NIGHT 1 1 8 1 7 1 (station0\<lparr>systemStartTime := 2\<rparr>))),
         snd (snd (createBooking NIGHT 1 1 8 1 7 1 (station0\<lparr>systemStartTime := 2\<rparr>))))"
    by blast
  with acc rej c f show ?thesis by simp
qed

end
